theory Spec2Isabelle
  imports Complex_Main
begin

section \<open>Strings as the command processor uses them\<close>

text \<open>
  A string is a list of characters, and a character is a code point from 0 to 255
  (Latin-1), which is what \<^typ>\<open>char\<close> holds.  On these code points \<open>str.lower\<close> maps
  \<open>A\<close> to \<open>Z\<close> (65 to 90) and U+00C0 to U+00DE (192 to 222) but for the multiplication
  sign U+00D7 (215) to the letter 32 places further on, and leaves every other
  character as it is.  The white space of \<open>str.strip\<close>, of \<open>str.split\<close> and of the
  regular-expression class \<open>\s\<close> is what \<open>str.isspace\<close> accepts: tab, line feed,
  vertical tab, form feed, carriage return, the four separators 0x1C to 0x1F, the
  space, the next-line character U+0085 and the no-break space U+00A0.
\<close>

definition lower_char :: "char \<Rightarrow> char" where
  "lower_char c =
     (let n = of_char c :: nat
      in if (65 \<le> n \<and> n \<le> 90) \<or> (192 \<le> n \<and> n \<le> 222 \<and> n \<noteq> 215)
         then char_of (n + 32) else c)"

definition lower :: "string \<Rightarrow> string" where
  "lower s = map lower_char s"

definition is_space :: "char \<Rightarrow> bool" where
  "is_space c \<longleftrightarrow>
     c \<in> set [CHR 0x09, CHR 0x0A, CHR 0x0B, CHR 0x0C, CHR 0x0D,
              CHR 0x1C, CHR 0x1D, CHR 0x1E, CHR 0x1F, CHR 0x20, CHR 0x85, CHR 0xA0]"

definition lstrip :: "string \<Rightarrow> string" where
  "lstrip s = dropWhile is_space s"

definition rstrip :: "string \<Rightarrow> string" where
  "rstrip s = rev (dropWhile is_space (rev s))"

definition strip :: "string \<Rightarrow> string" where
  "strip s = rstrip (lstrip s)"

text \<open>\<open>needle in haystack\<close> on strings: some suffix of the haystack starts with the needle.\<close>

fun contains :: "string \<Rightarrow> string \<Rightarrow> bool" where
  "contains [] needle = (needle = [])"
| "contains (x # xs) needle =
     (take (length needle) (x # xs) = needle \<or> contains xs needle)"


section \<open>The regular expressions of the pattern table\<close>

text \<open>
  The fragment of Python's \<open>re\<close> syntax that the table uses: literals, \<open>.+\<close>, \<open>.+?\<close>,
  \<open>\s+\<close>, concatenation, alternation, the greedy option \<open>(...)?\<close>, capturing groups
  (numbered, some of them named), non-capturing groups (plain nesting) and \<open>$\<close>.
  Matching is the backtracking search of \<open>re\<close>: alternatives are tried from left to
  right, a greedy quantifier tries the longest repetition first, a lazy one the
  shortest, and the first way that lets the rest of the pattern match is the result.
  The rest of the pattern is the continuation \<open>k\<close>.
\<close>

datatype cclass = AnyChar | Space

fun in_class :: "cclass \<Rightarrow> char \<Rightarrow> bool" where
  "in_class AnyChar c = (c \<noteq> CHR 0x0A)"
| "in_class Space c = is_space c"

datatype regex =
    Eps
  | Lit string
  | Plus cclass
  | PlusLazy cclass
  | Seq regex regex
  | Alt regex regex
  | Opt regex
  | Grp nat regex
  | NGrp nat string regex
  | Eol

type_synonym caps = "nat \<rightharpoonup> string"

fun plus_greedy :: "cclass \<Rightarrow> string \<Rightarrow> (string \<Rightarrow> 'a option) \<Rightarrow> 'a option" where
  "plus_greedy cl [] k = None"
| "plus_greedy cl (x # xs) k =
     (if in_class cl x
      then (case plus_greedy cl xs k of Some r \<Rightarrow> Some r | None \<Rightarrow> k xs)
      else None)"

fun plus_lazy :: "cclass \<Rightarrow> string \<Rightarrow> (string \<Rightarrow> 'a option) \<Rightarrow> 'a option" where
  "plus_lazy cl [] k = None"
| "plus_lazy cl (x # xs) k =
     (if in_class cl x
      then (case k xs of Some r \<Rightarrow> Some r | None \<Rightarrow> plus_lazy cl xs k)
      else None)"

text \<open>
  \<open>rmatch ic r s c k\<close>: match \<open>r\<close> at the front of the remaining input \<open>s\<close> with the
  groups captured so far in \<open>c\<close>, then continue with \<open>k\<close>.  With \<open>ic\<close> (the flag
  \<open>re.IGNORECASE\<close>) literals are compared without regard to case.  \<open>$\<close> matches at
  the end of the input and before a line feed that ends it.
\<close>

fun rmatch ::
  "bool \<Rightarrow> regex \<Rightarrow> string \<Rightarrow> caps \<Rightarrow> (string \<Rightarrow> caps \<Rightarrow> caps option) \<Rightarrow> caps option"
where
  "rmatch ic Eps s c k = k s c"
| "rmatch ic (Lit w) s c k =
     (if (if ic then lower (take (length w) s) = lower w else take (length w) s = w)
      then k (drop (length w) s) c else None)"
| "rmatch ic (Plus cl) s c k = plus_greedy cl s (\<lambda>s'. k s' c)"
| "rmatch ic (PlusLazy cl) s c k = plus_lazy cl s (\<lambda>s'. k s' c)"
| "rmatch ic (Seq a b) s c k = rmatch ic a s c (\<lambda>s' c'. rmatch ic b s' c' k)"
| "rmatch ic (Alt a b) s c k =
     (case rmatch ic a s c k of Some r \<Rightarrow> Some r | None \<Rightarrow> rmatch ic b s c k)"
| "rmatch ic (Opt a) s c k =
     (case rmatch ic a s c k of Some r \<Rightarrow> Some r | None \<Rightarrow> k s c)"
| "rmatch ic (Grp n a) s c k =
     rmatch ic a s c (\<lambda>s' c'. k s' (c'(n \<mapsto> take (length s - length s') s)))"
| "rmatch ic (NGrp n nm a) s c k =
     rmatch ic a s c (\<lambda>s' c'. k s' (c'(n \<mapsto> take (length s - length s') s)))"
| "rmatch ic Eol s c k = (if s = [] \<or> s = [CHR 0x0A] then k s c else None)"

text \<open>
  \<open>re.match(pattern, text, re.IGNORECASE)\<close>: the pattern must match at the start of
  the text, not all of it.  \<open>re.search(pattern, text)\<close> tries every start position
  from the left, with no flag.
\<close>

definition re_match :: "regex \<Rightarrow> string \<Rightarrow> caps option" where
  "re_match r s = rmatch True r s Map.empty (\<lambda>s' c. Some c)"

fun re_search :: "regex \<Rightarrow> string \<Rightarrow> caps option" where
  "re_search r [] = rmatch False r [] Map.empty (\<lambda>s' c. Some c)"
| "re_search r (x # xs) =
     (case rmatch False r (x # xs) Map.empty (\<lambda>s' c. Some c) of
        Some c \<Rightarrow> Some c
      | None \<Rightarrow> re_search r xs)"

fun ngroups :: "regex \<Rightarrow> nat" where
  "ngroups (Seq a b) = ngroups a + ngroups b"
| "ngroups (Alt a b) = ngroups a + ngroups b"
| "ngroups (Opt a) = ngroups a"
| "ngroups (Grp n a) = Suc (ngroups a)"
| "ngroups (NGrp n nm a) = Suc (ngroups a)"
| "ngroups r = 0"

fun group_names :: "regex \<Rightarrow> (string \<times> nat) list" where
  "group_names (Seq a b) = group_names a @ group_names b"
| "group_names (Alt a b) = group_names a @ group_names b"
| "group_names (Opt a) = group_names a"
| "group_names (Grp n a) = group_names a"
| "group_names (NGrp n nm a) = (nm, n) # group_names a"
| "group_names r = []"

text \<open>\<open>match.groups()\<close> and \<open>match.groupdict()\<close>; a group that took no part is \<open>None\<close>.\<close>

definition groups :: "regex \<Rightarrow> caps \<Rightarrow> string option list" where
  "groups r c = map c [1 ..< Suc (ngroups r)]"

definition groupdict :: "regex \<Rightarrow> caps \<Rightarrow> (string \<times> string option) list" where
  "groupdict r c = map (\<lambda>(nm, n). (nm, c n)) (group_names r)"

definition cat :: "regex list \<Rightarrow> regex" where
  "cat rs = foldr Seq rs Eps"

definition alt :: "string list \<Rightarrow> regex" where
  "alt ws = foldr (\<lambda>w r. Alt (Lit w) r) (butlast ws) (Lit (last ws))"


section \<open>The pattern table\<close>

text \<open>The handlers of \<open>CommandProcessor\<close>, by name.\<close>

datatype handler =
    H_get_time_date | H_get_weather
  | H_get_system_info | H_get_cpu_info | H_get_memory_info | H_get_disk_info
  | H_get_network_info | H_get_graphics_info | H_get_running_processes
  | H_get_installed_applications | H_get_system_health | H_search_files
  | H_analyze_file_types
  | H_get_connected_devices | H_get_monitor_info | H_get_printer_info | H_get_usb_devices
  | H_get_audio_devices | H_get_bluetooth_devices | H_scan_for_new_devices
  | H_open_application
  | H_create_directory | H_create_directory_prompt | H_delete_directory
  | H_update_directory | H_insert_into_directory
  | H_create_file | H_delete_item
  | H_execute_command
  | H_answer_question | H_shutdown
  | H_introduce_self | H_mood_response | H_youre_welcome | H_help_command
  | H_handle_enable_privacy_setting | H_handle_disable_privacy_setting
  | H_handle_show_privacy_settings | H_handle_clear_data
  | H_handle_add_sensitive_directory | H_handle_show_data_access_log
  | H_handle_data_security_status
  | H_default_response

text \<open>Pieces that several patterns share.\<close>

definition tell_whats :: regex where
  "tell_whats = Grp 1 (alt [''tell me'', ''what's'', ''what is''])"

definition tell_what :: regex where
  "tell_what = Grp 1 (alt [''tell me'', ''what''])"

definition about_my :: "regex list" where
  "about_my = [Opt (Grp 2 (Lit '' about'')), Opt (Grp 3 (Lit '' my'')), Lit '' '']"

definition info5 :: regex where
  "info5 = Opt (Grp 5 (alt ['' info'', '' information'']))"

definition folder_word :: regex where
  "folder_word = alt [''folder'', ''directory'', ''dir'']"

definition called_named :: "nat \<Rightarrow> regex" where
  "called_named n = Opt (Grp n (alt ['' called'', '' named'']))"

text \<open>\<open>(tell me|what's|what is)( about)?( my)? (W)( info| information)?\<close>\<close>

definition about_pattern :: "string list \<Rightarrow> regex" where
  "about_pattern ws = cat ([tell_whats] @ about_my @ [Grp 4 (alt ws), info5])"

text \<open>\<open>(tell me|what)( about)?( my)? (W)s?( info| information)?\<close>\<close>

definition device_pattern :: "string list \<Rightarrow> regex" where
  "device_pattern ws = cat ([tell_what] @ about_my @ [Grp 4 (alt ws), Opt (Lit ''s''), info5])"

text \<open>\<open>(tell me|what)( about)?( my)? (W)( device)?s?( info| information)?\<close>\<close>

definition device_pattern2 :: "string list \<Rightarrow> regex" where
  "device_pattern2 ws =
     cat ([tell_what] @ about_my @
          [Grp 4 (alt ws), Opt (Grp 5 (Lit '' device'')), Opt (Lit ''s''),
           Opt (Grp 6 (alt ['' info'', '' information'']))])"

text \<open>\<open>VERB (?P<app_name>.+?)(\s+with\s+(?P<args>.+))?$\<close>\<close>

definition app_pattern :: "string \<Rightarrow> regex" where
  "app_pattern verb =
     cat [Lit verb, Lit '' '', NGrp 1 ''app_name'' (PlusLazy AnyChar),
          Opt (Grp 2 (cat [Plus Space, Lit ''with'', Plus Space,
                           NGrp 3 ''args'' (Plus AnyChar)])),
          Eol]"

text \<open>\<open>VERB (a )?(?:folder|directory|dir)( called| named)? (?P<dir_path>.+)\<close>\<close>

definition mkdir_pattern :: "string \<Rightarrow> regex" where
  "mkdir_pattern verb =
     cat [Lit verb, Lit '' '', Opt (Grp 1 (Lit ''a '')), folder_word, called_named 2,
          Lit '' '', NGrp 3 ''dir_path'' (Plus AnyChar)]"

text \<open>\<open>VERB (a )?(?:folder|directory|dir)$\<close>\<close>

definition mkdir_prompt_pattern :: "string \<Rightarrow> regex" where
  "mkdir_prompt_pattern verb =
     cat [Lit verb, Lit '' '', Opt (Grp 1 (Lit ''a '')), folder_word, Eol]"

text \<open>\<open>VERB (?:ART )?(?:folder|directory|dir)( called| named)? (?P<dir_path>.+)\<close>\<close>

definition dir_pattern :: "string \<Rightarrow> string \<Rightarrow> regex" where
  "dir_pattern verb art =
     cat [Lit verb, Lit '' '', Opt (Lit art), folder_word, called_named 1,
          Lit '' '', NGrp 2 ''dir_path'' (Plus AnyChar)]"

text \<open>\<open>VERB (a )?file( called| named)? (?P<file_path>.+)\<close>\<close>

definition mkfile_pattern :: "string \<Rightarrow> regex" where
  "mkfile_pattern verb =
     cat [Lit verb, Lit '' '', Opt (Grp 1 (Lit ''a '')), Lit ''file'', called_named 2,
          Lit '' '', NGrp 3 ''file_path'' (Plus AnyChar)]"

text \<open>\<open>VERB( the| my)?( file| directory| folder)? (?P<path>.+)\<close>\<close>

definition delete_pattern :: "string \<Rightarrow> regex" where
  "delete_pattern verb =
     cat [Lit verb, Opt (Grp 1 (alt ['' the'', '' my''])),
          Opt (Grp 2 (alt ['' file'', '' directory'', '' folder''])),
          Lit '' '', NGrp 3 ''path'' (Plus AnyChar)]"

text \<open>\<open>VERB( the)? command (?P<command>.+)\<close>\<close>

definition command_pattern :: "string \<Rightarrow> regex" where
  "command_pattern verb =
     cat [Lit verb, Opt (Grp 1 (Lit '' the'')), Lit '' command '',
          NGrp 2 ''command'' (Plus AnyChar)]"

text \<open>\<open>(?:VERB1|VERB2) (?P<setting>.+?) (?:data collection|tracking|monitoring)\<close>\<close>

definition setting_pattern :: "string \<Rightarrow> string \<Rightarrow> regex" where
  "setting_pattern v1 v2 =
     cat [alt [v1, v2], Lit '' '', NGrp 1 ''setting'' (PlusLazy AnyChar), Lit '' '',
          alt [''data collection'', ''tracking'', ''monitoring'']]"

text \<open>
  \<open>self.commands\<close>, in the order of the dictionary literal (a Python dictionary keeps
  the order of insertion, and no pattern string occurs twice).
\<close>

definition commands :: "(regex \<times> handler) list" where
  "commands =
   [ \<comment> \<open>Time and date\<close>
     (cat [Lit ''what '', Grp 1 (alt [''time'', ''day'', ''date'']), Lit '' is it''],
        H_get_time_date),
     (cat [Grp 1 (alt [''current'', ''today's'']), Lit '' '', Grp 2 (alt [''time'', ''date''])],
        H_get_time_date),
     (cat [Grp 1 (alt [''tell me'', ''what's'']), Lit '' the '', Grp 2 (alt [''time'', ''date''])],
        H_get_time_date),
     \<comment> \<open>Weather\<close>
     (cat [Grp 1 (alt [''what's'', ''what is'', ''how's'']), Lit '' the weather'',
           Opt (Grp 2 (Lit '' like'')), Opt (Grp 3 (alt ['' today'', '' now''])),
           Opt (Grp 4 (cat [Lit '' in '', NGrp 5 ''location'' (Plus AnyChar)]))],
        H_get_weather),
     (cat [Grp 1 (alt [''weather'', ''temperature'', ''forecast'']),
           Opt (Grp 2 (alt ['' in'', '' for''])), Lit '' '',
           NGrp 3 ''location'' (Plus AnyChar)],
        H_get_weather),
     \<comment> \<open>System analysis\<close>
     (about_pattern [''system'', ''pc'', ''computer''], H_get_system_info),
     (cat [Grp 1 (alt [''system'', ''pc'', ''computer'']),
           Grp 2 (alt ['' information'', '' info''])],
        H_get_system_info),
     (about_pattern [''cpu'', ''processor''], H_get_cpu_info),
     (about_pattern [''memory'', ''ram''], H_get_memory_info),
     (about_pattern [''disk'', ''storage'', ''drive''], H_get_disk_info),
     (about_pattern [''network'', ''internet''], H_get_network_info),
     (about_pattern [''graphics'', ''gpu'', ''video card''], H_get_graphics_info),
     (cat [Grp 1 (alt [''show'', ''list'', ''what'']), Lit '' '',
           Grp 2 (alt [''processes'', ''applications'']), Opt (Grp 3 (Lit '' are'')),
           Lit '' running''],
        H_get_running_processes),
     (cat [Grp 1 (alt [''show'', ''list'', ''what'']), Lit '' '',
           Grp 2 (alt [''applications'', ''programs'', ''software'']),
           Opt (Grp 3 (Lit '' are'')), Lit '' installed''],
        H_get_installed_applications),
     (cat [tell_whats, Opt (Grp 2 (Lit '' the'')), Lit '' '',
           Grp 3 (alt [''system'', ''pc'', ''computer'']), Lit '' health''],
        H_get_system_health),
     (cat [Grp 1 (alt [''search'', ''find'']), Opt (Grp 2 (Lit '' for'')),
           Opt (Grp 3 (Lit '' files'')), Lit '' '', NGrp 4 ''pattern'' (PlusLazy AnyChar),
           Opt (Grp 5 (alt ['' in'', '' within''])), Lit '' '',
           NGrp 6 ''path'' (Plus AnyChar)],
        H_search_files),
     (cat [Grp 1 (alt [''analyze'', ''examine'']), Opt (Grp 2 (Lit '' the'')), Lit '' '',
           Grp 3 (alt [''files'', ''file types'']), Opt (Grp 4 (alt ['' in'', '' within''])),
           Lit '' '', NGrp 5 ''directory'' (Plus AnyChar)],
        H_analyze_file_types),
     \<comment> \<open>Device monitor\<close>
     (cat ([Grp 1 (alt [''tell me'', ''what'', ''which''])] @ about_my @
           [Grp 4 (alt [''devices'', ''peripherals'']),
            Grp 5 (alt ['' are connected'', '' do i have''])]),
        H_get_connected_devices),
     (device_pattern [''monitor'', ''display'', ''screen''], H_get_monitor_info),
     (device_pattern [''printer'', ''printing device''], H_get_printer_info),
     (device_pattern [''usb'', ''usb device''], H_get_usb_devices),
     (device_pattern2 [''audio'', ''sound'', ''speaker'', ''microphone''], H_get_audio_devices),
     (device_pattern2 [''bluetooth'', ''bt''], H_get_bluetooth_devices),
     (cat [Grp 1 (alt [''scan'', ''check'']), Opt (Grp 2 (Lit '' for'')), Lit '' '',
           Grp 3 (alt [''new'', ''newly connected'']), Lit '' devices''],
        H_scan_for_new_devices),
     \<comment> \<open>System operations: applications\<close>
     (app_pattern ''open'', H_open_application),
     (app_pattern ''launch'', H_open_application),
     (app_pattern ''start'', H_open_application),
     (app_pattern ''run'', H_open_application),
     \<comment> \<open>System operations: directories\<close>
     (mkdir_pattern ''create'', H_create_directory),
     (mkdir_pattern ''make'', H_create_directory),
     (mkdir_prompt_pattern ''create'', H_create_directory_prompt),
     (mkdir_prompt_pattern ''make'', H_create_directory_prompt),
     (dir_pattern ''delete'' ''the '', H_delete_directory),
     (dir_pattern ''remove'' ''the '', H_delete_directory),
     (dir_pattern ''update'' ''the '', H_update_directory),
     (dir_pattern ''insert'' ''into '', H_insert_into_directory),
     \<comment> \<open>System operations: files\<close>
     (mkfile_pattern ''create'', H_create_file),
     (mkfile_pattern ''make'', H_create_file),
     (delete_pattern ''delete'', H_delete_item),
     (delete_pattern ''remove'', H_delete_item),
     \<comment> \<open>System operations: commands\<close>
     (command_pattern ''execute'', H_execute_command),
     (command_pattern ''run'', H_execute_command),
     \<comment> \<open>General knowledge\<close>
     (cat [Grp 1 (alt [''who'', ''what'', ''when'', ''where'', ''why'', ''how'']), Lit '' '',
           Grp 2 (alt [''is'', ''are'', ''was'', ''were'', ''do'', ''does'', ''did'']),
           Lit '' '', Plus AnyChar],
        H_answer_question),
     (cat [Lit ''tell me '', Grp 1 (alt [''about'', ''something about'']), Lit '' '',
           Plus AnyChar],
        H_answer_question),
     \<comment> \<open>System commands\<close>
     (Grp 1 (alt [''exit'', ''quit'', ''shutdown'', ''bye'', ''goodbye'']), H_shutdown),
     \<comment> \<open>Personality responses\<close>
     (Grp 1 (alt [''who are you'', ''what are you'', ''tell me about yourself'']),
        H_introduce_self),
     (Grp 1 (alt [''how are you'', ''how do you feel'']), H_mood_response),
     (Grp 1 (alt [''thank you'', ''thanks'']), H_youre_welcome),
     \<comment> \<open>Help\<close>
     (Grp 1 (alt [''help'', ''what can you do'', ''commands'', ''list commands'']),
        H_help_command),
     \<comment> \<open>Security and privacy\<close>
     (setting_pattern ''enable'' ''turn on'', H_handle_enable_privacy_setting),
     (setting_pattern ''disable'' ''turn off'', H_handle_disable_privacy_setting),
     (cat [Lit ''show '', Opt (Lit ''my ''), Lit ''privacy settings''],
        H_handle_show_privacy_settings),
     (cat [Lit ''clear '', Opt (Lit ''all ''), Opt (Lit ''my ''), Lit ''data''],
        H_handle_clear_data),
     (cat [Lit ''add sensitive directory '', NGrp 1 ''directory'' (Plus AnyChar)],
        H_handle_add_sensitive_directory),
     (cat [Lit ''show data access '', alt [''log'', ''history'']],
        H_handle_show_data_access_log),
     (alt [''is my data secure'', ''how secure is my data''], H_handle_data_security_status),
     \<comment> \<open>Fallback pattern, last\<close>
     (Plus AnyChar, H_default_response) ]"

text \<open>
  The scan of \<open>process_command\<close>: the first rule whose pattern matches, with what
  \<open>match.groups()\<close> and \<open>match.groupdict()\<close> give for it.
\<close>

fun select_rule ::
  "(regex \<times> 'h) list \<Rightarrow> string \<Rightarrow> ('h \<times> string option list \<times> (string \<times> string option) list) option"
where
  "select_rule [] text = None"
| "select_rule ((r, h) # rest) text =
     (case re_match r text of
        Some c \<Rightarrow> Some (h, groups r c, groupdict r c)
      | None \<Rightarrow> select_rule rest text)"

section \<open>Paths\<close>

text \<open>
  \<open>pathlib\<close> in its POSIX flavour first: a path is a root (empty, \<open>/\<close> or \<open>//\<close>)
  and the list of its components.  \<open>Path\<close> parses a string as \<open>pathlib\<close> does (split at \<open>/\<close>, empty
  components and \<open>.\<close> dropped; exactly two leading slashes are kept as the root),
  \<open>joinpath\<close> is the operator \<open>/\<close> and \<open>path_str\<close> is \<open>str\<close>.
\<close>

datatype path = Mk_path (root: string) (parts: "string list")

fun split_on :: "char \<Rightarrow> string \<Rightarrow> string list" where
  "split_on sep [] = [[]]"
| "split_on sep (c # cs) =
     (if c = sep then [] # split_on sep cs
      else (case split_on sep cs of p # ps \<Rightarrow> (c # p) # ps | [] \<Rightarrow> [[c]]))"

definition splitroot :: "string \<Rightarrow> string \<times> string" where
  "splitroot p =
     (if take 1 p \<noteq> ''/'' then ([], p)
      else if take 1 (drop 1 p) \<noteq> ''/'' \<or> take 1 (drop 2 p) = ''/'' then (''/'', drop 1 p)
      else (''//'', drop 2 p))"

definition Path :: "string \<Rightarrow> path" where
  "Path s =
     (case splitroot s of
        (r, rel) \<Rightarrow> Mk_path r (filter (\<lambda>x. x \<noteq> [] \<and> x \<noteq> ''.'') (split_on CHR ''/'' rel)))"

definition is_absolute :: "path \<Rightarrow> bool" where
  "is_absolute p \<longleftrightarrow> root p \<noteq> []"

definition joinpath :: "path \<Rightarrow> path \<Rightarrow> path" where
  "joinpath p q = (if is_absolute q then q else Mk_path (root p) (parts p @ parts q))"

fun intercalate :: "string \<Rightarrow> string list \<Rightarrow> string" where
  "intercalate sep [] = []"
| "intercalate sep [x] = x"
| "intercalate sep (x # y # ys) = x @ sep @ intercalate sep (y # ys)"

definition path_str :: "path \<Rightarrow> string" where
  "path_str p =
     (if root p = [] \<and> parts p = [] then ''.'' else root p @ intercalate ''/'' (parts p))"

text \<open>\<open>s.replace(old, new, 1)\<close> for a one-character \<open>old\<close>.\<close>

fun replace_first :: "char \<Rightarrow> string \<Rightarrow> string \<Rightarrow> string" where
  "replace_first old new [] = []"
| "replace_first old new (c # cs) =
     (if c = old then new @ cs else c # replace_first old new cs)"

definition startswith :: "string \<Rightarrow> string \<Rightarrow> bool" where
  "startswith s pre \<longleftrightarrow> take (length pre) s = pre"

text \<open>\<open>s.lstrip('/\\')\<close>: leading slashes and backslashes removed.\<close>

definition lstrip_seps :: "string \<Rightarrow> string" where
  "lstrip_seps s = dropWhile (\<lambda>c. c = CHR ''/'' \<or> c = CHR 0x5C) s"

text \<open>
  \<open>pathlib\<close> in its Windows flavour (\<open>ntpath.splitroot\<close>, \<open>PureWindowsPath\<close> of
  Python 3.12): a path has a drive besides its root and components, both \<open>/\<close> and
  the backslash separate components, and a path is absolute when it has a drive and
  a root.
\<close>

datatype wpath = Mk_wpath (wdrive: string) (wroot: string) (wparts: "string list")

text \<open>
  \<open>str.upper\<close> on single characters: \<open>a\<close> to \<open>z\<close> (97 to 122) and U+00E0 to U+00FE
  (224 to 254) but for the division sign U+00F7 (247) go 32 places back.  The sharp
  s, the y with diaeresis and the micro sign, whose upper-case forms are not one
  character of this range, are left as they are; no text with one of them has the
  upper-case form that \<open>nt_splitroot\<close> compares with.
\<close>

definition upper_char :: "char \<Rightarrow> char" where
  "upper_char c =
     (let n = of_char c :: nat
      in if (97 \<le> n \<and> n \<le> 122) \<or> (224 \<le> n \<and> n \<le> 254 \<and> n \<noteq> 247)
         then char_of (n - 32) else c)"

definition bslash :: char where
  "bslash = CHR 0x5C"

text \<open>\<open>path.replace('/', '\\')\<close>\<close>

definition to_backslash :: "string \<Rightarrow> string" where
  "to_backslash s = map (\<lambda>c. if c = CHR ''/'' then bslash else c) s"

text \<open>\<open>s.find(c, start)\<close>, with \<open>None\<close> for \<open>-1\<close>.\<close>

fun find_char :: "char \<Rightarrow> string \<Rightarrow> nat option" where
  "find_char c [] = None"
| "find_char c (x # xs) = (if x = c then Some 0 else map_option Suc (find_char c xs))"

definition find_from :: "char \<Rightarrow> nat \<Rightarrow> string \<Rightarrow> nat option" where
  "find_from c start s = map_option (\<lambda>i. i + start) (find_char c (drop start s))"

definition nt_splitroot :: "string \<Rightarrow> string \<times> string \<times> string" where
  "nt_splitroot p =
     (let normp = to_backslash p in
      if take 1 normp = [bslash] then
        (if take 1 (drop 1 normp) = [bslash] then
           (let start = (if map upper_char (take 8 normp) =
                              [bslash, bslash, CHR ''?'', bslash, CHR ''U'', CHR ''N'', CHR ''C'', bslash]
                         then 8 else 2)
            in case find_from bslash start normp of
                 None \<Rightarrow> (p, [], [])
               | Some index \<Rightarrow>
                   (case find_from bslash (index + 1) normp of
                      None \<Rightarrow> (p, [], [])
                    | Some index2 \<Rightarrow>
                        (take index2 p, take 1 (drop index2 p), drop (index2 + 1) p)))
         else ([], take 1 p, drop 1 p))
      else if take 1 (drop 1 normp) = '':'' then
        (if take 1 (drop 2 normp) = [bslash]
         then (take 2 p, take 1 (drop 2 p), drop 3 p)
         else (take 2 p, [], drop 2 p))
      else ([], [], p))"

definition endswith :: "string \<Rightarrow> string \<Rightarrow> bool" where
  "endswith s suf \<longleftrightarrow> startswith (rev s) (rev suf)"

definition WindowsPath :: "string \<Rightarrow> wpath" where
  "WindowsPath s =
     (if s = [] then Mk_wpath [] [] []
      else
        (case nt_splitroot (to_backslash s) of
           (drv, rt, rel) \<Rightarrow>
             (let rt' =
                    (if rt = [] \<and> startswith drv [bslash] \<and> \<not> endswith drv [bslash]
                     then (let drv_parts = split_on bslash drv
                           in if length drv_parts = 4 \<and> \<not> contains ''?.'' (drv_parts ! 2)
                              then [bslash]
                              else if length drv_parts = 6 then [bslash] else rt)
                     else rt)
              in Mk_wpath drv rt'
                   (filter (\<lambda>x. x \<noteq> [] \<and> x \<noteq> ''.'') (split_on bslash rel)))))"

definition win_is_absolute :: "wpath \<Rightarrow> bool" where
  "win_is_absolute p \<longleftrightarrow> wdrive p \<noteq> [] \<and> wroot p \<noteq> []"

text \<open>
  The operator \<open>/\<close>: a right operand with a root replaces the left one (keeping the
  left drive when it has none of its own); a right operand with a drive only is
  relative to the left one when the drives agree, and replaces it otherwise.
\<close>

definition win_joinpath :: "wpath \<Rightarrow> wpath \<Rightarrow> wpath" where
  "win_joinpath p q =
     (if wroot q \<noteq> [] then
        (if wdrive q = [] \<and> wdrive p \<noteq> [] then Mk_wpath (wdrive p) (wroot q) (wparts q) else q)
      else if wdrive q \<noteq> [] then
        (if lower (wdrive q) = lower (wdrive p)
         then Mk_wpath (wdrive q) (wroot p) (wparts p @ wparts q)
         else q)
      else Mk_wpath (wdrive p) (wroot p) (wparts p @ wparts q))"

definition win_path_str :: "wpath \<Rightarrow> string" where
  "win_path_str p =
     (if wdrive p = [] \<and> wroot p = [] \<and> wparts p = [] then ''.''
      else wdrive p @ wroot p @ intercalate [bslash] (wparts p))"

text \<open>What \<open>_resolve_path\<close> uses of \<open>pathlib\<close>, for either flavour.\<close>

record 'p pathlib =
  parse :: "string \<Rightarrow> 'p"
  absolute :: "'p \<Rightarrow> bool"
  join :: "'p \<Rightarrow> 'p \<Rightarrow> 'p"
  to_str :: "'p \<Rightarrow> string"

definition posix :: "path pathlib" where
  "posix = \<lparr>parse = Path, absolute = is_absolute, join = joinpath, to_str = path_str\<rparr>"

definition windows :: "wpath pathlib" where
  "windows = \<lparr>parse = WindowsPath, absolute = win_is_absolute, join = win_joinpath,
              to_str = win_path_str\<rparr>"

text \<open>
  \<open>SystemHandler._resolve_path\<close>.  \<open>home\<close> is \<open>Path.home()\<close> and \<open>cwd\<close> is \<open>Path.cwd()\<close>;
  \<open>self.desktop\<close>, \<open>self.documents\<close> and \<open>self.downloads\<close> are \<open>home\<close> joined with the
  folder name, as \<open>__init__\<close> sets them.
\<close>

definition resolve_path :: "'p pathlib \<Rightarrow> 'p \<Rightarrow> 'p \<Rightarrow> string \<Rightarrow> 'p" where
  "resolve_path lib home cwd path_str0 =
     (if startswith path_str0 ''~'' then
        parse lib (replace_first CHR ''~'' (to_str lib home) path_str0)
      else if startswith (lower path_str0) ''desktop'' then
        join lib (join lib home (parse lib ''Desktop''))
                 (parse lib (lstrip_seps (drop 8 path_str0)))
      else if startswith (lower path_str0) ''documents'' then
        join lib (join lib home (parse lib ''Documents''))
                 (parse lib (lstrip_seps (drop 10 path_str0)))
      else if startswith (lower path_str0) ''downloads'' then
        join lib (join lib home (parse lib ''Downloads''))
                 (parse lib (lstrip_seps (drop 10 path_str0)))
      else
        (let p = parse lib path_str0 in if absolute lib p then p else join lib cwd p))"


section \<open>Python values, JSON and the cipher\<close>

text \<open>
  The values that secure storage holds: \<open>None\<close>, booleans, integers, floats, strings,
  lists, tuples and dictionaries with string keys.  A float is the number it stands
  for, an infinity or NaN (the sign of zero is not kept apart).  A dictionary is the
  list of its items in insertion order; \<open>wf_pyval\<close> says that no key occurs twice in
  any dictionary, which every Python dictionary satisfies.
\<close>

datatype pyfloat = Finite real | Pos_inf | Neg_inf | NaN

datatype pyval =
    PNone
  | PBool bool
  | PInt int
  | PFloat pyfloat
  | PStr string
  | PList "pyval list"
  | PTuple "pyval list"
  | PDict "(string \<times> pyval) list"

datatype json =
    JNull
  | JBool bool
  | JNum int
  | JFloat pyfloat
  | JStr string
  | JArr "json list"
  | JObj "(string \<times> json) list"

text \<open>\<open>d[k] = v\<close>: an existing key keeps its place, a new key goes to the end.\<close>

fun dict_set :: "(string \<times> 'v) list \<Rightarrow> string \<Rightarrow> 'v \<Rightarrow> (string \<times> 'v) list" where
  "dict_set [] k v = [(k, v)]"
| "dict_set ((k', v') # d) k v =
     (if k' = k then (k, v) # d else (k', v') # dict_set d k v)"

definition dict_of_items :: "(string \<times> 'v) list \<Rightarrow> (string \<times> 'v) list" where
  "dict_of_items kvs = foldl (\<lambda>d kv. dict_set d (fst kv) (snd kv)) [] kvs"

text \<open>
  What \<open>json.dumps\<close> writes and what \<open>json.loads\<close> builds, at the level of the JSON
  document: the encoder writes lists and tuples alike as arrays and a float as the
  shortest numeral that reads back as the same float (\<open>NaN\<close> and \<open>Infinity\<close>
  included), and the decoder builds a list from every array and a dictionary from
  every object (a repeated key keeps its last value).
\<close>

fun encode :: "pyval \<Rightarrow> json" where
  "encode PNone = JNull"
| "encode (PBool b) = JBool b"
| "encode (PInt n) = JNum n"
| "encode (PFloat x) = JFloat x"
| "encode (PStr s) = JStr s"
| "encode (PList xs) = JArr (map encode xs)"
| "encode (PTuple xs) = JArr (map encode xs)"
| "encode (PDict d) = JObj (map (map_prod id encode) d)"

fun decode :: "json \<Rightarrow> pyval" where
  "decode JNull = PNone"
| "decode (JBool b) = PBool b"
| "decode (JNum n) = PInt n"
| "decode (JFloat x) = PFloat x"
| "decode (JStr s) = PStr s"
| "decode (JArr xs) = PList (map decode xs)"
| "decode (JObj d) = PDict (dict_of_items (map (map_prod id decode) d))"

text \<open>
  Where they raise instead.  An integer of more than 4300 decimal digits cannot be
  turned into text or read from it (\<open>ValueError\<close>, the interpreter's default limit
  on integer string conversion), and containers nested deeper than the interpreter's
  recursion limit allows stop both the encoder and the decoder (\<open>RecursionError\<close>).
  The depth \<open>n\<close> that is still allowed is a parameter.
\<close>

definition max_str_digits :: nat where
  "max_str_digits = 4300"

definition int_str_ok :: "int \<Rightarrow> bool" where
  "int_str_ok i \<longleftrightarrow> \<bar>i\<bar> < 10 ^ max_str_digits"

fun encodable :: "nat \<Rightarrow> pyval \<Rightarrow> bool" where
  "encodable n (PInt i) = int_str_ok i"
| "encodable n (PList xs) = (case n of 0 \<Rightarrow> False | Suc m \<Rightarrow> list_all (encodable m) xs)"
| "encodable n (PTuple xs) = (case n of 0 \<Rightarrow> False | Suc m \<Rightarrow> list_all (encodable m) xs)"
| "encodable n (PDict d) =
     (case n of 0 \<Rightarrow> False | Suc m \<Rightarrow> list_all (encodable m) (map snd d))"
| "encodable n v = True"

fun decodable :: "nat \<Rightarrow> json \<Rightarrow> bool" where
  "decodable n (JNum i) = int_str_ok i"
| "decodable n (JArr xs) = (case n of 0 \<Rightarrow> False | Suc m \<Rightarrow> list_all (decodable m) xs)"
| "decodable n (JObj d) =
     (case n of 0 \<Rightarrow> False | Suc m \<Rightarrow> list_all (decodable m) (map snd d))"
| "decodable n j = True"

text \<open>\<open>json.dumps\<close> and \<open>json.loads\<close>: \<open>None\<close> when they raise.\<close>

definition json_dumps :: "nat \<Rightarrow> pyval \<Rightarrow> json option" where
  "json_dumps n v = (if encodable n v then Some (encode v) else None)"

definition json_loads :: "nat \<Rightarrow> json \<Rightarrow> pyval option" where
  "json_loads n j = (if decodable n j then Some (decode j) else None)"

fun wf_pyval :: "pyval \<Rightarrow> bool" where
  "wf_pyval (PList xs) = list_all wf_pyval xs"
| "wf_pyval (PTuple xs) = list_all wf_pyval xs"
| "wf_pyval (PDict d) = (distinct (map fst d) \<and> list_all wf_pyval (map snd d))"
| "wf_pyval v = True"

text \<open>
  A value of the JSON data model that is equal to itself: no tuple and no NaN
  anywhere inside (NaN is not equal to NaN).
\<close>

fun json_native :: "pyval \<Rightarrow> bool" where
  "json_native (PFloat x) = (x \<noteq> NaN)"
| "json_native (PList xs) = list_all json_native xs"
| "json_native (PTuple xs) = False"
| "json_native (PDict d) = list_all json_native (map snd d)"
| "json_native v = True"

text \<open>
  Fernet, symbolically: a token names the key and the plaintext it was made from, and
  decryption gives the plaintext back under that key only.  A stored file holds a
  token or other bytes.
\<close>

type_synonym key = nat

datatype bytes = Token key json | Garbage

definition encrypt :: "key \<Rightarrow> json \<Rightarrow> bytes" where
  "encrypt k j = Token k j"

fun decrypt :: "key \<Rightarrow> bytes \<Rightarrow> json option" where
  "decrypt k (Token k' j) = (if k' = k then Some j else None)"
| "decrypt k Garbage = None"

section \<open>The security manager\<close>

text \<open>
  The files of the data directory and what else the security manager depends on.
  The key file holds a key.  The privacy file holds a JSON object that \<open>json.load\<close>
  reads (\<open>Settings_json\<close>, with what it reads), or text that is not JSON
  (\<open>json.JSONDecodeError\<close>), or content on which reading raises something else, such
  as bytes that are not text (\<open>UnicodeDecodeError\<close>); a privacy file with a JSON value
  that is not an object is not modelled.  The secure-storage file holds bytes.
  \<open>writable\<close> says whether opening a file of the directory for writing succeeds,
  \<open>encrypts\<close> whether \<open>Fernet.encrypt\<close> succeeds, and \<open>dump_depth\<close> and \<open>load_depth\<close>
  are the nesting depths that the JSON encoder and the JSON decoder reach before the
  recursion limit stops them.
\<close>

datatype privfile = Settings_json "(string \<times> pyval) list" | Not_json | Undecodable

record disk =
  key_file :: "key option"
  privacy_file :: "privfile option"
  secure_storage_file :: "bytes option"
  writable :: bool
  encrypts :: bool
  dump_depth :: nat
  load_depth :: nat

record secmgr =
  user_home :: path
  cipher_key :: key
  privacy_settings :: "(string \<times> pyval) list"
  secure_storage :: pyval
  files :: disk

datatype pyexc =
    TypeError
  | AttributeError
  | OtherException string
  | SystemExit int
  | KeyboardInterrupt

text \<open>What \<open>except Exception\<close> catches: everything but the exits.\<close>

fun is_Exception :: "pyexc \<Rightarrow> bool" where
  "is_Exception (SystemExit n) = False"
| "is_Exception KeyboardInterrupt = False"
| "is_Exception e = True"

definition default_settings :: "path \<Rightarrow> (string \<times> pyval) list" where
  "default_settings home =
     [(''collect_system_info'', PBool True),
      (''collect_usage_data'', PBool True),
      (''store_command_history'', PBool True),
      (''allow_network_access'', PBool True),
      (''allow_file_system_access'', PBool True),
      (''allow_process_management'', PBool True),
      (''sensitive_directories'',
         PList [PStr (path_str (joinpath home (Path ''Documents''))),
                PStr (path_str (joinpath home (Path ''Downloads''))),
                PStr (path_str (joinpath home (Path ''Pictures'')))]),
      (''excluded_file_types'',
         PList [PStr ''.password'', PStr ''.key'', PStr ''.token'', PStr ''.secret'',
                PStr ''.credential'', PStr ''.pem'', PStr ''.ppk'', PStr ''.keystore''])]"

text \<open>
  \<open>_initialize_encryption\<close>: an existing key is loaded; otherwise a new key
  (\<open>fresh1\<close>) is written, and if that fails a temporary key (\<open>fresh2\<close>) is used.
\<close>

definition initialize_encryption :: "key \<Rightarrow> key \<Rightarrow> disk \<Rightarrow> key \<times> disk" where
  "initialize_encryption fresh1 fresh2 d =
     (case key_file d of
        None \<Rightarrow> (if writable d then (fresh1, d\<lparr>key_file := Some fresh1\<rparr>) else (fresh2, d))
      | Some k \<Rightarrow> (k, d))"

text \<open>
  \<open>with open(self.privacy_file, 'w') as f: json.dump(settings, f, indent=2)\<close>, with
  whether it came to its end.  Opening the file empties it and the encoder writes
  piece by piece, so when the encoder raises, what the file holds is not a JSON
  document.
\<close>

definition write_settings :: "(string \<times> pyval) list \<Rightarrow> disk \<Rightarrow> bool \<times> disk" where
  "write_settings settings d =
     (if \<not> writable d then (False, d)
      else if encodable (dump_depth d) (PDict settings)
      then (True, d\<lparr>privacy_file := Some (Settings_json settings)\<rparr>)
      else (False, d\<lparr>privacy_file := Some Not_json\<rparr>))"

text \<open>
  \<open>_load_privacy_settings\<close>.  A missing file and a file that is not JSON are replaced
  by the defaults; a file that lacks some default keys gets them and is written
  again.  Every exception but \<open>json.JSONDecodeError\<close> goes to the outer handler, which
  returns the defaults and writes nothing.
\<close>

definition write_defaults :: "path \<Rightarrow> disk \<Rightarrow> (string \<times> pyval) list \<times> disk" where
  "write_defaults home d = (default_settings home, snd (write_settings (default_settings home) d))"

definition load_privacy_settings :: "path \<Rightarrow> disk \<Rightarrow> (string \<times> pyval) list \<times> disk" where
  "load_privacy_settings home d =
     (case privacy_file d of
        None \<Rightarrow> write_defaults home d
      | Some Not_json \<Rightarrow> write_defaults home d
      | Some Undecodable \<Rightarrow> (default_settings home, d)
      | Some (Settings_json st) \<Rightarrow>
          (let merged = foldl (\<lambda>s kv. if fst kv \<in> set (map fst s) then s
                                      else dict_set s (fst kv) (snd kv))
                              st (default_settings home);
               updated = (\<not> list_all (\<lambda>kv. fst kv \<in> set (map fst st)) (default_settings home))
           in if updated
              then (case write_settings merged d of
                      (True, d') \<Rightarrow> (merged, d')
                    | (False, d') \<Rightarrow> (default_settings home, d'))
              else (st, d)))"

text \<open>
  \<open>_save_secure_storage\<close>: serialise, encrypt, write; \<open>False\<close> as soon as one of the
  three fails, and then the file is as it was.
\<close>

definition save_secure_storage :: "key \<Rightarrow> pyval \<Rightarrow> disk \<Rightarrow> bool \<times> disk" where
  "save_secure_storage k data d =
     (case json_dumps (dump_depth d) data of
        None \<Rightarrow> (False, d)
      | Some json_data \<Rightarrow>
          if \<not> encrypts d then (False, d)
          else (let encrypted_data = encrypt k json_data
                in if writable d then (True, d\<lparr>secure_storage_file := Some encrypted_data\<rparr>)
                   else (False, d)))"

text \<open>
  \<open>_load_secure_storage\<close>: a missing file, a file that does not decrypt under the key
  and a plaintext that \<open>json.loads\<close> does not read all give an empty storage, which is
  saved.  What \<open>json.loads\<close> reads need not be a dictionary.
\<close>

definition new_storage :: "key \<Rightarrow> disk \<Rightarrow> pyval \<times> disk" where
  "new_storage k d = (PDict [], snd (save_secure_storage k (PDict []) d))"

definition load_secure_storage :: "key \<Rightarrow> disk \<Rightarrow> pyval \<times> disk" where
  "load_secure_storage k d =
     (case secure_storage_file d of
        None \<Rightarrow> new_storage k d
      | Some encrypted_data \<Rightarrow>
          (case decrypt k encrypted_data of
             None \<Rightarrow> new_storage k d
           | Some decrypted_data \<Rightarrow>
               (case json_loads (load_depth d) decrypted_data of
                  None \<Rightarrow> new_storage k d
                | Some storage \<Rightarrow> (storage, d))))"

text \<open>\<open>SecurityManager.__init__\<close> on the files of a data directory: a process start.\<close>

definition init :: "path \<Rightarrow> key \<Rightarrow> key \<Rightarrow> disk \<Rightarrow> secmgr" where
  "init home fresh1 fresh2 d =
     (case initialize_encryption fresh1 fresh2 d of (k, d1) \<Rightarrow>
      case load_privacy_settings home d1 of (ps, d2) \<Rightarrow>
      case load_secure_storage k d2 of (ss, d3) \<Rightarrow>
        \<lparr>user_home = home, cipher_key = k, privacy_settings = ps,
         secure_storage = ss, files = d3\<rparr>)"

definition valid_keys :: "string list" where
  "valid_keys =
     [''collect_system_info'', ''collect_usage_data'', ''store_command_history'',
      ''allow_network_access'', ''allow_file_system_access'', ''allow_process_management'',
      ''sensitive_directories'', ''excluded_file_types'']"

definition update_privacy_settings :: "(string \<times> pyval) list \<Rightarrow> secmgr \<Rightarrow> bool \<times> secmgr" where
  "update_privacy_settings settings sm =
     (let updated_settings =
            foldl (\<lambda>s kv. if fst kv \<in> set valid_keys then dict_set s (fst kv) (snd kv) else s)
                  (privacy_settings sm) settings
      in case write_settings updated_settings (files sm) of
           (True, d') \<Rightarrow> (True, sm\<lparr>privacy_settings := updated_settings, files := d'\<rparr>)
         | (False, d') \<Rightarrow> (False, sm\<lparr>files := d'\<rparr>))"

text \<open>
  \<open>store_secure_data\<close>: the item assignment fails with a \<open>TypeError\<close>, which is caught,
  when the storage is not a dictionary.  \<open>get_secure_data\<close> has no handler: a storage
  that is not a dictionary has no \<open>get\<close>.
\<close>

definition store_secure_data :: "string \<Rightarrow> pyval \<Rightarrow> secmgr \<Rightarrow> bool \<times> secmgr" where
  "store_secure_data k data sm =
     (case secure_storage sm of
        PDict d \<Rightarrow>
          (let ss = PDict (dict_set d k data)
           in case save_secure_storage (cipher_key sm) ss (files sm) of
                (ok, d') \<Rightarrow> (ok, sm\<lparr>secure_storage := ss, files := d'\<rparr>))
      | _ \<Rightarrow> (False, sm))"

definition get_secure_data :: "string \<Rightarrow> pyval \<Rightarrow> secmgr \<Rightarrow> pyexc + pyval" where
  "get_secure_data k dflt sm =
     (case secure_storage sm of
        PDict d \<Rightarrow> Inr (case map_of d k of Some v \<Rightarrow> v | None \<Rightarrow> dflt)
      | _ \<Rightarrow> Inl AttributeError)"

text \<open>
  \<open>log_data_access\<close>; \<open>now\<close> is \<open>datetime.datetime.now().isoformat()\<close>.  Only a list
  has \<open>append\<close>.  \<open>access_log[-1000:]\<close> is the last 1000 entries.
\<close>

definition log_entry :: "string \<Rightarrow> string \<Rightarrow> string \<Rightarrow> pyval" where
  "log_entry now data_type description =
     PDict [(''timestamp'', PStr now), (''data_type'', PStr data_type),
            (''description'', PStr description)]"

definition log_data_access :: "string \<Rightarrow> string \<Rightarrow> string \<Rightarrow> secmgr \<Rightarrow> pyexc + secmgr" where
  "log_data_access now data_type description sm =
     (case get_secure_data ''access_log'' (PList []) sm of
        Inl e \<Rightarrow> Inl e
      | Inr (PList xs) \<Rightarrow>
          (let access_log = xs @ [log_entry now data_type description];
               access_log = (if length access_log > 1000
                             then drop (length access_log - 1000) access_log
                             else access_log)
           in Inr (snd (store_secure_data ''access_log'' (PList access_log) sm)))
      | Inr _ \<Rightarrow> Inl AttributeError)"

text \<open>
  \<open>clear_all_data\<close>: the storage is emptied and saved, the privacy settings are loaded
  again (the result of that call is dropped), and the answer is \<open>True\<close>.
\<close>

definition clear_all_data :: "secmgr \<Rightarrow> bool \<times> secmgr" where
  "clear_all_data sm =
     (let d1 = snd (save_secure_storage (cipher_key sm) (PDict []) (files sm));
          d2 = snd (load_privacy_settings (user_home sm) d1)
      in (True, sm\<lparr>secure_storage := PDict [], files := d2\<rparr>))"

section \<open>The command processor\<close>

text \<open>
  What a run leaves behind: the utterances given to \<open>speaker.speak\<close> and the calls made
  to the collaborators, in order, and the state of the security manager.  \<open>Listen\<close> is
  a call to the speech-input collaborator (\<open>SpeechListener.listen\<close>).
\<close>

datatype event =
    Speak string
  | Listen
  | Open_application string "string list"
  | Delete_item string
  | Execute_command string

record world =
  trace :: "event list"
  secm :: secmgr

datatype outcome = Returned | Raised pyexc

definition speak :: "string \<Rightarrow> world \<Rightarrow> world" where
  "speak text w = w\<lparr>trace := trace w @ [Speak text]\<rparr>"

definition emit :: "event \<Rightarrow> world \<Rightarrow> world" where
  "emit e w = w\<lparr>trace := trace w @ [e]\<rparr>"

text \<open>
  How a handler takes its arguments.  The dispatcher calls
  \<open>handler(command_text, *match.groups(), **kwargs)\<close>, and Python binds that call to
  one of three shapes of signature:
  \<^item> \<open>(self, command_text, **kwargs)\<close> takes no further positional argument;
  \<^item> \<open>(self, command_text, *args, **kwargs)\<close> takes any;
  \<^item> \<open>(self, command_text, p=None, **kwargs)\<close> takes at most one, and not both by
    position and by the keyword \<open>p\<close>.
  A call that does not fit raises \<open>TypeError\<close> before the body runs.
\<close>

datatype signature = Kw_only | Var_args | One_opt string

record bound =
  args :: "string option list"
  named :: "string option"
  kwargs :: "(string \<times> string option) list"

definition kw_get :: "(string \<times> string option) list \<Rightarrow> string \<Rightarrow> string option" where
  "kw_get kw name = (case map_of kw name of Some v \<Rightarrow> v | None \<Rightarrow> None)"

definition bind_args ::
  "signature \<Rightarrow> string option list \<Rightarrow> (string \<times> string option) list \<Rightarrow> pyexc + bound"
where
  "bind_args sg gs gd =
     (case sg of
        Kw_only \<Rightarrow>
          (if gs = [] then Inr \<lparr>args = [], named = None, kwargs = gd\<rparr> else Inl TypeError)
      | Var_args \<Rightarrow> Inr \<lparr>args = gs, named = None, kwargs = gd\<rparr>
      | One_opt p \<Rightarrow>
          (case gs of
             [] \<Rightarrow> Inr \<lparr>args = [], named = kw_get gd p,
                        kwargs = filter (\<lambda>kv. fst kv \<noteq> p) gd\<rparr>
           | [g] \<Rightarrow> (if p \<in> set (map fst gd) then Inl TypeError
                     else Inr \<lparr>args = [], named = g, kwargs = gd\<rparr>)
           | _ \<Rightarrow> Inl TypeError))"

definition signature_of :: "handler \<Rightarrow> signature" where
  "signature_of h =
     (if h \<in> set [H_search_files, H_analyze_file_types, H_open_application,
                   H_create_directory, H_create_file, H_delete_item, H_execute_command,
                   H_answer_question, H_shutdown, H_create_directory_prompt,
                   H_delete_directory, H_update_directory, H_insert_into_directory]
      then Var_args
      else if h = H_get_weather then One_opt ''location''
      else if h = H_handle_enable_privacy_setting then One_opt ''setting''
      else if h = H_handle_disable_privacy_setting then One_opt ''setting''
      else if h = H_handle_add_sensitive_directory then One_opt ''directory''
      else Kw_only)"

text \<open>Truth of an optional string: \<open>None\<close> and the empty string are false.\<close>

definition truthy :: "string option \<Rightarrow> bool" where
  "truthy x \<longleftrightarrow> x \<noteq> None \<and> x \<noteq> Some []"

text \<open>\<open>s.split()\<close>: the maximal runs of characters that are not white space.\<close>

fun split_ws_aux :: "string \<Rightarrow> string \<Rightarrow> string list" where
  "split_ws_aux cur [] = (if cur = [] then [] else [cur])"
| "split_ws_aux cur (c # cs) =
     (if is_space c
      then (if cur = [] then split_ws_aux [] cs else cur # split_ws_aux [] cs)
      else split_ws_aux (cur @ [c]) cs)"

definition split_ws :: "string \<Rightarrow> string list" where
  "split_ws s = split_ws_aux [] s"

text \<open>
  The surroundings of the processor: whether \<open>SystemHandler\<close> and \<open>SecurityManager\<close>
  were constructed (the attribute is \<open>None\<close> otherwise), what the methods of
  \<open>SystemHandler\<close> answer (each of them catches its own errors and answers with a
  status), and the bodies of the handlers that are not modelled one by one, which may
  do anything.
\<close>

record env =
  system_handler_ok :: bool
  security_manager_ok :: bool
  open_application_res :: "string \<Rightarrow> string list \<Rightarrow> bool"
  delete_item_res :: "string \<Rightarrow> bool"
  execute_command_res :: "string \<Rightarrow> bool \<times> string"
  other_handler :: "handler \<Rightarrow> string \<Rightarrow> bound \<Rightarrow> world \<Rightarrow> outcome \<times> world"

definition not_available :: string where
  "not_available = ''I'm sorry, system operations are not available at the moment.''"

text \<open>The argument a handler looks for: the keyword first, else the first positional.\<close>

definition pick_arg :: "bound \<Rightarrow> string \<Rightarrow> string option" where
  "pick_arg b name =
     (let v = kw_get (kwargs b) name
      in if \<not> truthy v \<and> args b \<noteq> [] then hd (args b) else v)"

definition cp_open_application :: "env \<Rightarrow> string \<Rightarrow> bound \<Rightarrow> world \<Rightarrow> outcome \<times> world" where
  "cp_open_application en command_text b w =
     (if \<not> system_handler_ok en then (Returned, speak not_available w)
      else
        (let app_name = pick_arg b ''app_name'' in
         if \<not> truthy app_name
         then (Returned, speak ''Sorry, I didn't catch which application to open.'' w)
         else
           (let app_name = strip (the app_name);
                app_args = (if ''args'' \<in> set (map fst (kwargs b)) \<and> truthy (kw_get (kwargs b) ''args'')
                            then map strip (split_ws (the (kw_get (kwargs b) ''args'')))
                            else []);
                w1 = speak (''Opening '' @ app_name @ ''.'') w;
                w2 = emit (Open_application app_name app_args) w1
            in if open_application_res en app_name app_args then (Returned, w2)
               else (Returned,
                     speak (''I couldn't find or open '' @ app_name @
                            ''. Please check if it's installed correctly.'') w2))))"

definition cp_delete_item :: "env \<Rightarrow> string \<Rightarrow> bound \<Rightarrow> world \<Rightarrow> outcome \<times> world" where
  "cp_delete_item en command_text b w =
     (if \<not> system_handler_ok en then (Returned, speak not_available w)
      else
        (let path = pick_arg b ''path'' in
         if \<not> truthy path
         then (Returned, speak ''Sorry, I didn't catch what to delete.'' w)
         else
           (let path = strip (the path);
                w1 = speak (''Are you sure you want to delete '' @ path @
                            ''? Please confirm by saying yes or no.'') w;
                confirmation = True
            in if confirmation then
                 (let w2 = speak (''Deleting '' @ path @ ''.'') w1;
                      w3 = emit (Delete_item path) w2
                  in if delete_item_res en path
                     then (Returned, speak (path @ '' has been deleted.'') w3)
                     else (Returned,
                           speak (''I couldn't delete '' @ path @
                                  ''. Please check that the path exists and try again.'') w3))
               else (Returned, speak ''Delete operation cancelled.'' w1))))"

definition cp_delete_directory :: "env \<Rightarrow> string \<Rightarrow> bound \<Rightarrow> world \<Rightarrow> outcome \<times> world" where
  "cp_delete_directory en command_text b w =
     (if \<not> system_handler_ok en then (Returned, speak not_available w)
      else
        (let dir_path = pick_arg b ''dir_path'' in
         if \<not> truthy dir_path
         then (Returned, speak ''Sorry, I didn't catch which directory to delete.'' w)
         else
           (let dir_path = strip (the dir_path);
                w1 = speak (''Are you sure you want to delete the directory '' @ dir_path @
                            ''? This cannot be undone. Please confirm yes or no.'') w;
                confirmation = True
            in if confirmation then
                 (let w2 = speak (''Deleting directory '' @ dir_path @ ''.'') w1;
                      w3 = emit (Delete_item dir_path) w2
                  in if delete_item_res en dir_path
                     then (Returned, speak (''Directory '' @ dir_path @ '' has been deleted.'') w3)
                     else (Returned,
                           speak (''I couldn't delete the directory '' @ dir_path @
                                  ''. Please check that it exists and try again.'') w3))
               else (Returned, speak ''Directory deletion cancelled.'' w1))))"

definition dangerous_commands :: "string list" where
  "dangerous_commands = [''rm -rf'', ''deltree'', ''format'', ''del /f'', ''drop database'']"

definition refusal :: string where
  "refusal = ''I'm sorry, that command appears to be potentially harmful. For safety reasons, I cannot execute it.''"

definition cp_execute_command :: "env \<Rightarrow> string \<Rightarrow> bound \<Rightarrow> world \<Rightarrow> outcome \<times> world" where
  "cp_execute_command en command_text b w =
     (if \<not> system_handler_ok en then (Returned, speak not_available w)
      else
        (let command = pick_arg b ''command'' in
         if \<not> truthy command
         then (Returned, speak ''Sorry, I didn't catch which command to execute.'' w)
         else
           (let command = strip (the command) in
            if list_ex (\<lambda>dc. contains (lower command) dc) dangerous_commands
            then (Returned, speak refusal w)
            else
              (let w1 = speak (''Executing command: '' @ command) w;
                   w2 = emit (Execute_command command) w1
               in case execute_command_res en command of
                    (success, output) \<Rightarrow>
                      if success then
                        (let output = (if output \<noteq> [] \<and> length output > 500
                                       then take 500 output @ ''... (output truncated)''
                                       else output);
                             w3 = speak ''Command executed successfully.'' w2
                         in if output \<noteq> []
                            then (Returned, speak (''Command output: '' @ output) w3)
                            else (Returned, w3))
                      else (Returned,
                            speak (''Command execution failed. Error: '' @ output) w2)))))"

definition setting_map :: "(string \<times> string) list" where
  "setting_map =
     [(''system info'', ''collect_system_info''),
      (''system information'', ''collect_system_info''),
      (''usage'', ''collect_usage_data''),
      (''usage data'', ''collect_usage_data''),
      (''command history'', ''store_command_history''),
      (''network'', ''allow_network_access''),
      (''internet'', ''allow_network_access''),
      (''file system'', ''allow_file_system_access''),
      (''file access'', ''allow_file_system_access''),
      (''file'', ''allow_file_system_access''),
      (''process'', ''allow_process_management''),
      (''application'', ''allow_process_management'')]"

definition unfamiliar :: "string \<Rightarrow> string" where
  "unfamiliar setting_name =
     ''I'm not familiar with the privacy setting '' @ [CHR 0x27] @ setting_name @ [CHR 0x27] @
     ''. Available settings include system info, usage data, command history, network access, file access, and application management.''"

text \<open>
  \<open>_handle_enable_privacy_setting\<close> and \<open>_handle_disable_privacy_setting\<close> are the same
  text but for the verbs of the pattern they search the command with
  (\<open>(?:V1|V2) (.+?) (?:data collection|tracking|monitoring)\<close>), the value they store
  and two words of what they say.
\<close>

definition cp_privacy_setting ::
  "string \<Rightarrow> string \<Rightarrow> bool \<Rightarrow> string \<Rightarrow> string \<Rightarrow> env \<Rightarrow> string \<Rightarrow> bound \<Rightarrow> world \<Rightarrow> outcome \<times> world"
where
  "cp_privacy_setting v1 v2 val verb done en command_text b w =
     (if \<not> security_manager_ok en
      then (Returned, speak ''Security management is not available.'' w)
      else
        (let setting =
               (if \<not> truthy (named b)
                then (case re_search (cat [alt [v1, v2], Lit '' '', Grp 1 (PlusLazy AnyChar), Lit '' '',
                                          alt [''data collection'', ''tracking'', ''monitoring'']])
                                    command_text of
                        Some c \<Rightarrow> Some (c 1)
                      | None \<Rightarrow> None)
                else Some (named b))
         in case setting of
              None \<Rightarrow> (Returned, speak (''Please specify a privacy setting to '' @ verb @ ''.'') w)
            | Some setting \<Rightarrow>
                (let setting_name = lower (strip (the setting)) in
                 case map_of setting_map setting_name of
                   None \<Rightarrow> (Returned, speak (unfamiliar setting_name) w)
                 | Some setting_key \<Rightarrow>
                     (let w1 = w\<lparr>secm := snd (update_privacy_settings [(setting_key, PBool val)] (secm w))\<rparr>
                      in (Returned,
                          speak (''I've '' @ done @ '' '' @ setting_name @ '' data collection.'') w1)))))"

definition cp_handle_enable_privacy_setting ::
  "env \<Rightarrow> string \<Rightarrow> bound \<Rightarrow> world \<Rightarrow> outcome \<times> world"
where
  "cp_handle_enable_privacy_setting =
     cp_privacy_setting ''enable'' ''turn on'' True ''enable'' ''enabled''"

definition cp_handle_disable_privacy_setting ::
  "env \<Rightarrow> string \<Rightarrow> bound \<Rightarrow> world \<Rightarrow> outcome \<times> world"
where
  "cp_handle_disable_privacy_setting =
     cp_privacy_setting ''disable'' ''turn off'' False ''disable'' ''disabled''"

definition cp_handle_clear_data :: "env \<Rightarrow> string \<Rightarrow> bound \<Rightarrow> world \<Rightarrow> outcome \<times> world" where
  "cp_handle_clear_data en command_text b w =
     (if \<not> security_manager_ok en
      then (Returned, speak ''Security management is not available.'' w)
      else
        (let w1 = speak ''Are you sure you want to clear all your stored data? This cannot be undone. Please say yes or no.'' w;
             confirmed = True
         in if confirmed then
              (case clear_all_data (secm w1) of
                 (ok, sm') \<Rightarrow>
                   if ok
                   then (Returned,
                         speak ''All your stored data has been cleared, and privacy settings have been reset to defaults.''
                               (w1\<lparr>secm := sm'\<rparr>))
                   else (Returned,
                         speak ''I had trouble clearing your data. Please try again later.''
                               (w1\<lparr>secm := sm'\<rparr>)))
            else (Returned, speak ''Data clearing operation canceled.'' w1)))"

definition cp_shutdown :: "env \<Rightarrow> string \<Rightarrow> bound \<Rightarrow> world \<Rightarrow> outcome \<times> world" where
  "cp_shutdown en command_text b w =
     (Raised (SystemExit 0), speak ''Shutting down. Goodbye, sir.'' w)"

definition run_handler :: "env \<Rightarrow> handler \<Rightarrow> string \<Rightarrow> bound \<Rightarrow> world \<Rightarrow> outcome \<times> world" where
  "run_handler en h command_text b w =
     (if h = H_open_application then cp_open_application en command_text b w
      else if h = H_delete_item then cp_delete_item en command_text b w
      else if h = H_delete_directory then cp_delete_directory en command_text b w
      else if h = H_execute_command then cp_execute_command en command_text b w
      else if h = H_handle_enable_privacy_setting
        then cp_handle_enable_privacy_setting en command_text b w
      else if h = H_handle_disable_privacy_setting
        then cp_handle_disable_privacy_setting en command_text b w
      else if h = H_handle_clear_data then cp_handle_clear_data en command_text b w
      else if h = H_shutdown then cp_shutdown en command_text b w
      else other_handler en h command_text b w)"

text \<open>
  The call \<open>handler(command_text, *match.groups(), **kwargs)\<close>: the arguments are bound
  to the signature, and the body runs if they fit.
\<close>

definition invoke ::
  "env \<Rightarrow> handler \<Rightarrow> string \<Rightarrow> string option list \<Rightarrow> (string \<times> string option) list
     \<Rightarrow> world \<Rightarrow> outcome \<times> world"
where
  "invoke en h command_text gs gd w =
     (case bind_args (signature_of h) gs gd of
        Inl e \<Rightarrow> (Raised e, w)
      | Inr b \<Rightarrow> run_handler en h command_text b w)"

text \<open>
  The \<open>try\<close> around the call: an \<open>Exception\<close> becomes one apology and a normal return;
  anything else (a \<open>SystemExit\<close>) goes on to the caller.
\<close>

definition error_message :: string where
  "error_message = ''I encountered an error while processing that command.''"

definition guard :: "outcome \<times> world \<Rightarrow> outcome \<times> world" where
  "guard r =
     (case r of
        (Returned, w') \<Rightarrow> (Returned, w')
      | (Raised e, w') \<Rightarrow>
          (if is_Exception e then (Returned, speak error_message w') else (Raised e, w')))"

text \<open>
  \<open>dispatch\<close> is the loop of \<open>process_command\<close> over a table: the first rule that
  matches has its handler called, once, and the loop ends there; with no match the
  last two lines of \<open>process_command\<close> run.
\<close>

definition dispatch ::
  "('h \<Rightarrow> string \<Rightarrow> string option list \<Rightarrow> (string \<times> string option) list \<Rightarrow> world \<Rightarrow> outcome \<times> world)
     \<Rightarrow> (regex \<times> 'h) list \<Rightarrow> string \<Rightarrow> world \<Rightarrow> outcome \<times> world"
where
  "dispatch call table command_text w =
     (case select_rule table command_text of
        Some (h, gs, gd) \<Rightarrow> guard (call h command_text gs gd w)
      | None \<Rightarrow> (Returned, speak ''I'm sorry, I don't understand that command.'' w))"

definition process_command :: "env \<Rightarrow> string \<Rightarrow> world \<Rightarrow> outcome \<times> world" where
  "process_command en command_text w =
     (if command_text = []
      then (Returned, speak ''I didn't catch that. Can you please repeat?'' w)
      else dispatch (invoke en) commands (strip (lower command_text)) w)"

section \<open>A sample installation\<close>

text \<open>
  Concrete surroundings for the worked examples below: an empty, writable data
  directory where encryption works and JSON nested up to 900 deep is written and
  read, a home directory, a security manager started on them, and a processor whose
  collaborators are all present.
\<close>

definition disk0 :: disk where
  "disk0 = \<lparr>key_file = None, privacy_file = None, secure_storage_file = None,
            writable = True, encrypts = True, dump_depth = 900, load_depth = 900\<rparr>"

definition home0 :: path where
  "home0 = Path ''/home/user''"

definition secmgr0 :: secmgr where
  "secmgr0 = init home0 11 12 disk0"

definition world0 :: world where
  "world0 = \<lparr>trace = [], secm = secmgr0\<rparr>"

definition env0 :: env where
  "env0 = \<lparr>system_handler_ok = True, security_manager_ok = True,
            open_application_res = (\<lambda>name app_args. False),
            delete_item_res = (\<lambda>path. True),
            execute_command_res = (\<lambda>command. (True, [])),
            other_handler = (\<lambda>h command_text b w. (Returned, w))\<rparr>"


section \<open>Facts about strings and the scan\<close>

text \<open>The two case mappings on the bits of a character, for evaluation.\<close>

lemma lower_char_code [code]:
  "lower_char (Char b0 b1 b2 b3 b4 b5 b6 b7) =
     (if b6 \<and> \<not> b5 \<and>
         (if b7 then \<not> (b0 \<and> b1 \<and> b2 \<and> b4)
          else (b0 \<or> b1 \<or> b2 \<or> b3 \<or> b4) \<and> \<not> (b4 \<and> b3 \<and> (b2 \<or> b1 \<and> b0)))
      then Char b0 b1 b2 b3 b4 True b6 b7
      else Char b0 b1 b2 b3 b4 b5 b6 b7)"
  by (cases b0; cases b1; cases b2; cases b3; cases b4; cases b5; cases b6; cases b7;
      simp add: lower_char_def char_of_def bit_Suc_0_iff)

lemma upper_char_code [code]:
  "upper_char (Char b0 b1 b2 b3 b4 b5 b6 b7) =
     (if b6 \<and> b5 \<and>
         (if b7 then \<not> (b0 \<and> b1 \<and> b2 \<and> b4)
          else (b0 \<or> b1 \<or> b2 \<or> b3 \<or> b4) \<and> \<not> (b4 \<and> b3 \<and> (b2 \<or> b1 \<and> b0)))
      then Char b0 b1 b2 b3 b4 False b6 b7
      else Char b0 b1 b2 b3 b4 b5 b6 b7)"
  by (cases b0; cases b1; cases b2; cases b3; cases b4; cases b5; cases b6; cases b7;
      simp add: upper_char_def char_of_def bit_Suc_0_iff)

lemma lower_char_space: "is_space (lower_char c) = is_space c"
proof (cases c)
  case (Char b0 b1 b2 b3 b4 b5 b6 b7)
  then show ?thesis by (auto simp: lower_char_code is_space_def)
qed

lemma strip_lower: "strip (lower s) = lower (strip s)"
proof -
  have comp: "is_space \<circ> lower_char = is_space"
    by (rule ext) (simp add: lower_char_space)
  show ?thesis
    by (simp add: strip_def lstrip_def rstrip_def lower_def dropWhile_map rev_map comp)
qed

lemma strip_all_space: "list_all is_space s \<Longrightarrow> strip s = []"
proof -
  assume "list_all is_space s"
  then have "lstrip s = []" by (simp add: lstrip_def list_all_iff)
  then show ?thesis by (simp add: strip_def rstrip_def)
qed

lemma rstrip_prefix: "\<exists>t. s = rstrip s @ t"
proof -
  have "rstrip s @ rev (takeWhile is_space (rev s)) =
        rev (takeWhile is_space (rev s) @ dropWhile is_space (rev s))"
    by (simp only: rstrip_def rev_append)
  also have "\<dots> = s"
    by (simp only: takeWhile_dropWhile_id rev_rev_ident)
  finally show ?thesis by metis
qed

lemma strip_hd: assumes "strip s \<noteq> []" shows "\<not> is_space (hd (strip s))"
proof -
  let ?u = "lstrip s"
  obtain t where u: "?u = rstrip ?u @ t" using rstrip_prefix by blast
  from assms have ne: "rstrip ?u \<noteq> []" by (simp add: strip_def)
  with u have une: "?u \<noteq> []" by auto
  from u ne have "hd (rstrip ?u) = hd ?u" by (metis hd_append2)
  moreover from une have "\<not> is_space (hd ?u)" unfolding lstrip_def by (rule hd_dropWhile)
  ultimately show ?thesis by (simp add: strip_def)
qed

lemma catch_all_matches:
  assumes "t \<noteq> []" "\<not> is_space (hd t)"
  shows "re_match (Plus AnyChar) t \<noteq> None"
proof -
  from assms obtain x xs where t: "t = x # xs" by (cases t) auto
  with assms have "x \<noteq> CHR 0x0A" by (auto simp: is_space_def)
  then show ?thesis
    by (simp add: re_match_def t split: option.splits)
qed

lemma select_rule_total:
  "(r, h) \<in> set table \<Longrightarrow> re_match r t \<noteq> None \<Longrightarrow> select_rule table t \<noteq> None"
  by (induction table) (auto split: option.splits)

lemma select_rule_first:
  "select_rule table t = Some (h, gs, gd) \<Longrightarrow>
   \<exists>before r c after.
     table = before @ (r, h) # after
     \<and> list_all (\<lambda>(r', h'). re_match r' t = None) before
     \<and> re_match r t = Some c \<and> gs = groups r c \<and> gd = groupdict r c"
proof (induction table)
  case Nil
  then show ?case by simp
next
  case (Cons rh table)
  obtain r0 h0 where rh: "rh = (r0, h0)" by (cases rh)
  show ?case
  proof (cases "re_match r0 t")
    case None
    with Cons.prems rh have "select_rule table t = Some (h, gs, gd)" by simp
    with Cons.IH obtain before r c after where
      x: "table = before @ (r, h) # after"
         "list_all (\<lambda>(r', h'). re_match r' t = None) before"
         "re_match r t = Some c" "gs = groups r c" "gd = groupdict r c"
      by blast
    from x(1) rh have "rh # table = ((r0, h0) # before) @ (r, h) # after" by simp
    moreover from x(2) None have "list_all (\<lambda>(r', h'). re_match r' t = None) ((r0, h0) # before)"
      by simp
    ultimately show ?thesis using x(3,4,5) by blast
  next
    case (Some c)
    with Cons.prems rh have "h = h0" "gs = groups r0 c" "gd = groupdict r0 c" by simp_all
    moreover have "rh # table = [] @ (r0, h0) # table" using rh by simp
    moreover have "list_all (\<lambda>(r', h'). re_match r' t = None) []" by simp
    ultimately show ?thesis using Some by blast
  qed
qed

lemma catch_all_last: "last commands = (Plus AnyChar, H_default_response)"
  by (simp add: commands_def)

lemma catch_all_mem: "(Plus AnyChar, H_default_response) \<in> set commands"
  by (simp add: commands_def)

lemma select_empty: "select_rule commands [] = None"
  by code_simp

lemma sel_enable: "select_rule commands ''enable network data collection'' =
    Some (H_handle_enable_privacy_setting, [Some ''network''], [(''setting'', Some ''network'')])"
  by code_simp

lemma sel_goodbye: "select_rule commands ''goodbye'' = Some (H_shutdown, [Some ''goodbye''], [])"
  by code_simp


lemma select_run_command:
  "select_rule commands ''run command rm -rf /'' =
     Some (H_open_application, [Some ''command rm -rf /'', None, None],
           [(''app_name'', Some ''command rm -rf /''), (''args'', None)])"
  by code_simp

lemma normal_run_command: "strip (lower ''run command rm -rf /'') = ''run command rm -rf /''"
  by code_simp

lemma strip_command_rm: "strip ''command rm -rf /'' = ''command rm -rf /''"
  by code_simp

text \<open>
  Claim C1.  The input \<open>run command rm -rf /\<close> is meant to reach the
  command-execution handler, whose denylist refuses it.  In the table the rule
  \<open>run (?P<app_name>.+?)...$\<close> stands before \<open>run( the)? command (?P<command>.+)\<close>
  and matches first: the dispatcher calls \<open>_open_application\<close> with the application
  name \<open>command rm -rf /\<close>.  The denylist check is never reached and no refusal is
  spoken; \<open>SystemHandler.open_application\<close> is called instead (and
  \<open>SystemHandler.execute_command\<close> is not).
\<close>

theorem run_command_rm_rf_opens_application:
  "select_rule commands (strip (lower ''run command rm -rf /'')) =
     Some (H_open_application, [Some ''command rm -rf /'', None, None],
           [(''app_name'', Some ''command rm -rf /''), (''args'', None)])
   \<and> process_command en ''run command rm -rf /'' w =
     (if system_handler_ok en
      then (let w2 = emit (Open_application ''command rm -rf /'' [])
                          (speak ''Opening command rm -rf /.'' w)
            in if open_application_res en ''command rm -rf /'' [] then (Returned, w2)
               else (Returned,
                     speak ''I couldn't find or open command rm -rf /. Please check if it's installed correctly.'' w2))
      else (Returned, speak not_available w))"
  unfolding process_command_def dispatch_def normal_run_command select_run_command
  by (simp add: invoke_def signature_of_def bind_args_def run_handler_def
        cp_open_application_def pick_arg_def kw_get_def truthy_def strip_command_rm
        guard_def Let_def)

lemma normal_enable:
  "strip (lower ''enable network data collection'') = ''enable network data collection''"
  by code_simp

text \<open>
  Claim C5.  For the input \<open>enable network data collection\<close> the dispatcher passes
  the captured name twice, by position (\<open>*match.groups()\<close>) and by keyword
  (\<open>**kwargs\<close>), to a handler whose second parameter is \<open>setting\<close>: the call raises
  \<open>TypeError\<close> before the body runs, the dispatcher speaks its generic error
  message, and the privacy store is left as it was.
\<close>

theorem enable_network_raises_type_error:
  "invoke en H_handle_enable_privacy_setting ''enable network data collection''
      [Some ''network''] [(''setting'', Some ''network'')] w = (Raised TypeError, w)
   \<and> process_command en ''enable network data collection'' w =
       (Returned, speak error_message w)"
  unfolding process_command_def dispatch_def normal_enable sel_enable
  by (simp add: invoke_def signature_of_def bind_args_def guard_def)

lemma normal_goodbye: "strip (lower ''goodbye'') = ''goodbye''"
  by code_simp

text \<open>
  Claim C7, as stated, fails: the shutdown handler raises \<open>SystemExit\<close>, which
  \<open>except Exception\<close> does not catch; it leaves \<open>process_command\<close>.
\<close>

theorem shutdown_exit_propagates:
  "process_command env0 ''goodbye'' world0 =
     (Raised (SystemExit 0), speak ''Shutting down. Goodbye, sir.'' world0)"
  unfolding process_command_def dispatch_def normal_goodbye sel_goodbye
  by (simp add: invoke_def signature_of_def bind_args_def run_handler_def cp_shutdown_def
        guard_def)

text \<open>
  Claim C7, amended.  For every non-empty input and whatever the handlers do: if the
  call of the selected handler raises, then an error derived from \<open>Exception\<close>
  (a \<open>TypeError\<close> of the call itself included) is caught, exactly one generic
  error utterance follows what the handler had done, \<open>process_command\<close> returns
  normally and the handler is not called again; a \<open>SystemExit\<close> or a
  \<open>KeyboardInterrupt\<close> is not caught and leaves \<open>process_command\<close>.
\<close>

theorem handler_exception_caught:
  assumes "command_text \<noteq> []"
    and "select_rule commands (strip (lower command_text)) = Some (h, gs, gd)"
    and "invoke en h (strip (lower command_text)) gs gd w = (Raised e, w')"
  shows "process_command en command_text w =
           (if is_Exception e then (Returned, speak error_message w') else (Raised e, w'))"
  using assms by (simp add: process_command_def dispatch_def guard_def)

theorem handler_exception_caught_witness:
  "''enable network data collection'' \<noteq> []
   \<and> select_rule commands (strip (lower ''enable network data collection'')) =
       Some (H_handle_enable_privacy_setting, [Some ''network''], [(''setting'', Some ''network'')])
   \<and> invoke env0 H_handle_enable_privacy_setting (strip (lower ''enable network data collection''))
        [Some ''network''] [(''setting'', Some ''network'')] world0 = (Raised TypeError, world0)
   \<and> process_command env0 ''enable network data collection'' world0 =
        (Returned, speak error_message world0)"
proof -
  have a: "''enable network data collection'' \<noteq> []" by simp
  have b: "select_rule commands (strip (lower ''enable network data collection'')) =
       Some (H_handle_enable_privacy_setting, [Some ''network''], [(''setting'', Some ''network'')])"
    by (simp only: normal_enable sel_enable)
  have c: "invoke env0 H_handle_enable_privacy_setting (strip (lower ''enable network data collection''))
        [Some ''network''] [(''setting'', Some ''network'')] world0 = (Raised TypeError, world0)"
    by (simp add: invoke_def signature_of_def bind_args_def)
  from handler_exception_caught [OF a b c] a b c show ?thesis by simp
qed

text \<open>
  Claim C3, amended.  For the empty input no rule is tried, no handler is called and
  exactly one utterance, "I didn't catch that", is produced.  For an input of white
  space only no rule matches, no handler is called and exactly one utterance is
  produced, which is "I'm sorry, I don't understand that command".
\<close>

theorem empty_or_blank_input:
  "process_command en [] w = (Returned, speak ''I didn't catch that. Can you please repeat?'' w)
   \<and> (command_text \<noteq> [] \<and> list_all is_space command_text \<longrightarrow>
        select_rule commands (strip (lower command_text)) = None
        \<and> process_command en command_text w =
            (Returned, speak ''I'm sorry, I don't understand that command.'' w))"
proof -
  have "strip (lower command_text) = []" if "list_all is_space command_text"
  proof -
    from that have "strip command_text = []" by (rule strip_all_space)
    then have "lower (strip command_text) = []" by (simp add: lower_def)
    then show ?thesis by (simp only: strip_lower)
  qed
  then show ?thesis
    by (simp add: process_command_def dispatch_def select_empty)
qed

theorem empty_or_blank_input_witness:
  "[CHR 0x20, CHR 0xA0, CHR 0x09, CHR 0x85] \<noteq> []
   \<and> list_all is_space [CHR 0x20, CHR 0xA0, CHR 0x09, CHR 0x85]
   \<and> select_rule commands (strip (lower [CHR 0x20, CHR 0xA0, CHR 0x09, CHR 0x85])) = None
   \<and> process_command env0 [CHR 0x20, CHR 0xA0, CHR 0x09, CHR 0x85] world0 =
        (Returned, speak ''I'm sorry, I don't understand that command.'' world0)"
  using empty_or_blank_input [of env0 world0 "[CHR 0x20, CHR 0xA0, CHR 0x09, CHR 0x85]"]
  by (simp add: is_space_def)

text \<open>
  Claim C3, as stated, fails for white space: the emptiness test comes before
  \<open>strip\<close>, so a single blank goes through the scan, matches nothing and gets the
  utterance of the no-match branch.
\<close>

theorem blank_input_not_understood:
  "trace (snd (process_command env0 '' '' world0)) =
     [Speak ''I'm sorry, I don't understand that command.'']
   \<and> trace (snd (process_command env0 '' '' world0)) \<noteq>
     [Speak ''I didn't catch that. Can you please repeat?'']"
proof -
  have "strip (lower '' '') = []" by code_simp
  then show ?thesis
    by (simp add: process_command_def dispatch_def select_empty speak_def world0_def)
qed

text \<open>
  Claim C4, as stated, fails: a single blank is a non-empty input for which no rule is
  selected and the no-match branch runs.
\<close>

theorem blank_input_selects_no_rule:
  "'' '' \<noteq> [] \<and> select_rule commands (strip (lower '' '')) = None
   \<and> process_command env0 '' '' world0 =
        (Returned, speak ''I'm sorry, I don't understand that command.'' world0)"
proof -
  have "strip (lower '' '') = []" by code_simp
  then show ?thesis
    by (simp add: process_command_def dispatch_def select_empty)
qed

text \<open>
  Claim C4, amended.  For every input whose lower-cased, trimmed form is not empty the
  scan selects exactly one rule, the first of the table whose pattern matches (every
  rule before it does not match), and the dispatcher makes exactly one handler call,
  to the handler of that rule with the groups of that match (what it returns is that
  call's result behind the error boundary); the catch-all rule is the last of the
  table and matches every such text, so the no-match branch is not reached for these
  inputs.
\<close>

theorem dispatch_total:
  assumes "strip (lower command_text) \<noteq> []"
  shows "last commands = (Plus AnyChar, H_default_response)
    \<and> re_match (Plus AnyChar) (strip (lower command_text)) \<noteq> None
    \<and> (\<exists>before r h c after.
          commands = before @ (r, h) # after
          \<and> list_all (\<lambda>(r', h'). re_match r' (strip (lower command_text)) = None) before
          \<and> re_match r (strip (lower command_text)) = Some c
          \<and> select_rule commands (strip (lower command_text)) =
                Some (h, groups r c, groupdict r c)
          \<and> process_command en command_text w =
              guard (invoke en h (strip (lower command_text)) (groups r c) (groupdict r c) w))"
proof -
  let ?t = "strip (lower command_text)"
  have hd: "\<not> is_space (hd ?t)"
    using assms by (simp add: strip_lower [symmetric] strip_hd)
  have m: "re_match (Plus AnyChar) ?t \<noteq> None"
    using assms hd by (rule catch_all_matches)
  have "select_rule commands ?t \<noteq> None"
    by (rule select_rule_total [OF catch_all_mem m])
  then obtain h gs gd where s: "select_rule commands ?t = Some (h, gs, gd)"
    by (cases "select_rule commands ?t") auto
  from select_rule_first [OF s] obtain before r c after where
    f: "commands = before @ (r, h) # after"
       "list_all (\<lambda>(r', h'). re_match r' ?t = None) before"
       "re_match r ?t = Some c" "gs = groups r c" "gd = groupdict r c"
    by blast
  from assms have ne: "command_text \<noteq> []"
    by (auto simp: strip_def lstrip_def rstrip_def lower_def)
  from s ne have p: "process_command en command_text w = guard (invoke en h ?t gs gd w)"
    by (simp add: process_command_def dispatch_def)
  from s f(4,5) have s': "select_rule commands ?t = Some (h, groups r c, groupdict r c)"
    by simp
  from p f(4,5) have p': "process_command en command_text w =
      guard (invoke en h ?t (groups r c) (groupdict r c) w)"
    by simp
  from f(1,2,3) s' p' have "\<exists>before r h c after.
          commands = before @ (r, h) # after
          \<and> list_all (\<lambda>(r', h'). re_match r' ?t = None) before
          \<and> re_match r ?t = Some c
          \<and> select_rule commands ?t = Some (h, groups r c, groupdict r c)
          \<and> process_command en command_text w =
              guard (invoke en h ?t (groups r c) (groupdict r c) w)"
    by blast
  with m catch_all_last show ?thesis by blast
qed

theorem dispatch_total_witness:
  "strip (lower ''goodbye'') \<noteq> []
   \<and> last commands = (Plus AnyChar, H_default_response)
   \<and> re_match (Plus AnyChar) (strip (lower ''goodbye'')) \<noteq> None
   \<and> (\<exists>before r c after.
          commands = before @ (r, H_shutdown) # after
          \<and> list_all (\<lambda>(r', h'). re_match r' (strip (lower ''goodbye'')) = None) before
          \<and> re_match r (strip (lower ''goodbye'')) = Some c
          \<and> select_rule commands (strip (lower ''goodbye'')) =
                Some (H_shutdown, groups r c, groupdict r c)
          \<and> process_command env0 ''goodbye'' world0 =
              guard (invoke env0 H_shutdown (strip (lower ''goodbye'')) (groups r c)
                       (groupdict r c) world0))"
proof -
  have h: "strip (lower ''goodbye'') \<noteq> []"
    by (simp add: normal_goodbye)
  from dispatch_total [OF h, of env0 world0] obtain before r h' c after where
    x: "last commands = (Plus AnyChar, H_default_response)"
       "re_match (Plus AnyChar) (strip (lower ''goodbye'')) \<noteq> None"
       "commands = before @ (r, h') # after"
       "list_all (\<lambda>(r', h'). re_match r' (strip (lower ''goodbye'')) = None) before"
       "re_match r (strip (lower ''goodbye'')) = Some c"
       "select_rule commands (strip (lower ''goodbye'')) = Some (h', groups r c, groupdict r c)"
       "process_command env0 ''goodbye'' world0 =
          guard (invoke env0 h' (strip (lower ''goodbye'')) (groups r c) (groupdict r c) world0)"
    by blast
  from x(6) sel_goodbye have "h' = H_shutdown" by (simp add: normal_goodbye)
  with x h show ?thesis by blast
qed

theorem run_command_rm_rf_witness:
  "process_command env0 ''run command rm -rf /'' world0 =
     (Returned,
      speak ''I couldn't find or open command rm -rf /. Please check if it's installed correctly.''
        (emit (Open_application ''command rm -rf /'' [])
           (speak ''Opening command rm -rf /.'' world0)))"
  using run_command_rm_rf_opens_application [of env0 world0]
  by (simp add: env0_def Let_def)

theorem enable_network_witness:
  "process_command env0 ''enable network data collection'' world0 =
     (Returned, speak error_message world0)"
  using enable_network_raises_type_error [of env0 world0]
  by simp

section \<open>The denylist of the command-execution handler\<close>

lemma take_prefix_iff: "take (length n) s = n \<longleftrightarrow> (\<exists>post. s = n @ post)"
proof
  assume "take (length n) s = n"
  then have "s = n @ drop (length n) s" by (metis append_take_drop_id)
  then show "\<exists>post. s = n @ post" ..
next
  assume "\<exists>post. s = n @ post"
  then show "take (length n) s = n" by auto
qed

lemma contains_iff: "contains s n \<longleftrightarrow> (\<exists>pre post. s = pre @ n @ post)"
proof (induction s)
  case Nil
  then show ?case by auto
next
  case (Cons x xs)
  show ?case
  proof
    assume "contains (x # xs) n"
    then consider "take (length n) (x # xs) = n" | "contains xs n" by auto
    then show "\<exists>pre post. x # xs = pre @ n @ post"
    proof cases
      case 1
      then obtain post where "x # xs = n @ post" using take_prefix_iff by blast
      then have "x # xs = [] @ n @ post" by simp
      then show ?thesis by blast
    next
      case 2
      with Cons.IH obtain pre post where "xs = pre @ n @ post" by blast
      then have "x # xs = (x # pre) @ n @ post" by simp
      then show ?thesis by blast
    qed
  next
    assume "\<exists>pre post. x # xs = pre @ n @ post"
    then obtain pre post where e: "x # xs = pre @ n @ post" by blast
    show "contains (x # xs) n"
    proof (cases pre)
      case Nil
      with e have "take (length n) (x # xs) = n" using take_prefix_iff by auto
      then show ?thesis by simp
    next
      case (Cons a pre')
      with e have "xs = pre' @ n @ post" by simp
      with Cons.IH have "contains xs n" by blast
      then show ?thesis by simp
    qed
  qed
qed

lemma dropWhile_keeps:
  assumes "n \<noteq> []" "\<not> P (hd n)"
  shows "\<exists>pre'. dropWhile P (pre @ n @ post) = pre' @ n @ post"
proof (induction pre)
  case Nil
  from assms obtain a n' where "n = a # n'" "\<not> P a" by (cases n) auto
  then have "dropWhile P ([] @ n @ post) = [] @ n @ post" by simp
  then show ?case by blast
next
  case (Cons a pre)
  then obtain pre' where ih: "dropWhile P (pre @ n @ post) = pre' @ n @ post" by blast
  show ?case
  proof (cases "P a")
    case True
    with ih have "dropWhile P ((a # pre) @ n @ post) = pre' @ n @ post" by simp
    then show ?thesis by blast
  next
    case False
    then have "dropWhile P ((a # pre) @ n @ post) = (a # pre) @ n @ post" by simp
    then show ?thesis by blast
  qed
qed

lemma strip_keeps:
  assumes n: "n \<noteq> []" "\<not> is_space (hd n)" "\<not> is_space (last n)"
    and c: "contains s n"
  shows "contains (strip s) n"
proof -
  from c obtain pre post where "s = pre @ n @ post" using contains_iff by blast
  with dropWhile_keeps [where P = is_space, OF n(1) n(2)] obtain pre' where l: "lstrip s = pre' @ n @ post"
    unfolding lstrip_def by blast
  have rn: "rev n \<noteq> []" "\<not> is_space (hd (rev n))"
    using n by (simp_all add: hd_rev)
  from l have "rev (lstrip s) = rev post @ rev n @ rev pre'" by simp
  with dropWhile_keeps [where P = is_space, OF rn] obtain q where
    "dropWhile is_space (rev (lstrip s)) = q @ rev n @ rev pre'" by metis
  then have "strip s = pre' @ n @ rev q"
    by (simp add: strip_def rstrip_def)
  then show ?thesis using contains_iff by blast
qed

lemma dangerous_shape:
  "dc \<in> set dangerous_commands \<Longrightarrow> dc \<noteq> [] \<and> \<not> is_space (hd dc) \<and> \<not> is_space (last dc)"
  by (auto simp: dangerous_commands_def is_space_def)

lemma contains_nonempty: "contains s n \<Longrightarrow> n \<noteq> [] \<Longrightarrow> s \<noteq> []"
  by (cases s) auto

text \<open>
  Claim C8.  Whatever command string reaches \<open>_execute_command\<close> (by keyword or
  as first positional argument), if its lower-cased form contains one of the
  denylisted substrings, the handler of a processor that has its \<open>SystemHandler\<close>
  speaks the refusal and returns: the refusal is the only event it adds, so
  \<open>SystemHandler.execute_command\<close> is not called.  The check is made on the trimmed
  command; trimming cannot remove an occurrence, since every denylisted string
  begins and ends with a character that is not white space.
\<close>

theorem dangerous_command_refused:
  assumes sh: "system_handler_ok en"
    and arg: "pick_arg b ''command'' = Some command"
    and bad: "list_ex (\<lambda>dc. contains (lower command) dc) dangerous_commands"
  shows "cp_execute_command en command_text b w = (Returned, speak refusal w)
    \<and> trace (snd (cp_execute_command en command_text b w)) = trace w @ [Speak refusal]"
proof -
  from bad obtain dc where dc: "dc \<in> set dangerous_commands" "contains (lower command) dc"
    by (auto simp: list_ex_iff)
  from dangerous_shape [OF dc(1)] have shape:
    "dc \<noteq> []" "\<not> is_space (hd dc)" "\<not> is_space (last dc)" by auto
  from contains_nonempty [OF dc(2) shape(1)] have ne: "command \<noteq> []"
    by (auto simp: lower_def)
  from strip_keeps [OF shape dc(2)] have "contains (lower (strip command)) dc"
    by (simp add: strip_lower)
  with dc(1) have "list_ex (\<lambda>dc. contains (lower (strip command)) dc) dangerous_commands"
    by (auto simp: list_ex_iff)
  with sh arg ne show ?thesis
    by (simp add: cp_execute_command_def truthy_def speak_def)
qed

theorem dangerous_command_refused_witness:
  "system_handler_ok env0
   \<and> pick_arg \<lparr>args = [None, Some ''Sudo RM -RF / ''], named = None,
                kwargs = [(''command'', Some ''Sudo RM -RF / '')]\<rparr> ''command'' = Some ''Sudo RM -RF / ''
   \<and> list_ex (\<lambda>dc. contains (lower ''Sudo RM -RF / '') dc) dangerous_commands
   \<and> cp_execute_command env0 ''execute command Sudo RM -RF / ''
        \<lparr>args = [None, Some ''Sudo RM -RF / ''], named = None,
         kwargs = [(''command'', Some ''Sudo RM -RF / '')]\<rparr> world0 = (Returned, speak refusal world0)
   \<and> trace (snd (cp_execute_command env0 ''execute command Sudo RM -RF / ''
        \<lparr>args = [None, Some ''Sudo RM -RF / ''], named = None,
         kwargs = [(''command'', Some ''Sudo RM -RF / '')]\<rparr> world0)) = trace world0 @ [Speak refusal]"
proof -
  have a: "system_handler_ok env0" by (simp add: env0_def)
  have b: "pick_arg \<lparr>args = [None, Some ''Sudo RM -RF / ''], named = None,
                kwargs = [(''command'', Some ''Sudo RM -RF / '')]\<rparr> ''command'' = Some ''Sudo RM -RF / ''"
    by (simp add: pick_arg_def kw_get_def truthy_def)
  have c: "list_ex (\<lambda>dc. contains (lower ''Sudo RM -RF / '') dc) dangerous_commands"
    by code_simp
  from dangerous_command_refused [OF a b c, of "''execute command Sudo RM -RF / ''" world0] a b c
  show ?thesis by blast
qed


section \<open>The destructive handlers\<close>

text \<open>
  Claim C2.  With a non-empty argument and the collaborator present, \<open>_delete_item\<close>
  and \<open>_delete_directory\<close> speak the confirmation question, then the announcement,
  then call \<open>SystemHandler.delete_item\<close>, then report its answer; and
  \<open>_handle_clear_data\<close> speaks its question and calls \<open>clear_all_data\<close>, which
  empties the secure storage.  Nothing comes between the question and the
  operation: the confirmation is the constant \<open>True\<close>, and the speech-input
  collaborator is not consulted (no \<open>Listen\<close> event).
\<close>

theorem destructive_handlers_assume_confirmation:
  "(system_handler_ok en \<and> pick_arg b ''path'' = Some path \<and> path \<noteq> [] \<longrightarrow>
      fst (cp_delete_item en command_text b w) = Returned
      \<and> trace (snd (cp_delete_item en command_text b w)) =
          trace w @
          [Speak (''Are you sure you want to delete '' @ strip path @
                  ''? Please confirm by saying yes or no.''),
           Speak (''Deleting '' @ strip path @ ''.''),
           Delete_item (strip path),
           Speak (if delete_item_res en (strip path)
                  then strip path @ '' has been deleted.''
                  else ''I couldn't delete '' @ strip path @
                       ''. Please check that the path exists and try again.'')])
   \<and> (system_handler_ok en \<and> pick_arg b ''dir_path'' = Some path \<and> path \<noteq> [] \<longrightarrow>
      fst (cp_delete_directory en command_text b w) = Returned
      \<and> trace (snd (cp_delete_directory en command_text b w)) =
          trace w @
          [Speak (''Are you sure you want to delete the directory '' @ strip path @
                  ''? This cannot be undone. Please confirm yes or no.''),
           Speak (''Deleting directory '' @ strip path @ ''.''),
           Delete_item (strip path),
           Speak (if delete_item_res en (strip path)
                  then ''Directory '' @ strip path @ '' has been deleted.''
                  else ''I couldn't delete the directory '' @ strip path @
                       ''. Please check that it exists and try again.'')])
   \<and> (security_manager_ok en \<longrightarrow>
      fst (cp_handle_clear_data en command_text b w) = Returned
      \<and> trace (snd (cp_handle_clear_data en command_text b w)) =
          trace w @
          [Speak ''Are you sure you want to clear all your stored data? This cannot be undone. Please say yes or no.'',
           Speak ''All your stored data has been cleared, and privacy settings have been reset to defaults.'']
      \<and> secm (snd (cp_handle_clear_data en command_text b w)) = snd (clear_all_data (secm w))
      \<and> secure_storage (secm (snd (cp_handle_clear_data en command_text b w))) = PDict [])"
proof (intro conjI impI)
  assume "system_handler_ok en \<and> pick_arg b ''path'' = Some path \<and> path \<noteq> []"
  then show "fst (cp_delete_item en command_text b w) = Returned"
    by (simp add: cp_delete_item_def truthy_def Let_def)
next
  assume "system_handler_ok en \<and> pick_arg b ''path'' = Some path \<and> path \<noteq> []"
  then show "trace (snd (cp_delete_item en command_text b w)) =
          trace w @
          [Speak (''Are you sure you want to delete '' @ strip path @
                  ''? Please confirm by saying yes or no.''),
           Speak (''Deleting '' @ strip path @ ''.''),
           Delete_item (strip path),
           Speak (if delete_item_res en (strip path)
                  then strip path @ '' has been deleted.''
                  else ''I couldn't delete '' @ strip path @
                       ''. Please check that the path exists and try again.'')]"
    by (simp add: cp_delete_item_def truthy_def Let_def speak_def emit_def)
next
  assume "system_handler_ok en \<and> pick_arg b ''dir_path'' = Some path \<and> path \<noteq> []"
  then show "fst (cp_delete_directory en command_text b w) = Returned"
    by (simp add: cp_delete_directory_def truthy_def Let_def)
next
  assume "system_handler_ok en \<and> pick_arg b ''dir_path'' = Some path \<and> path \<noteq> []"
  then show "trace (snd (cp_delete_directory en command_text b w)) =
          trace w @
          [Speak (''Are you sure you want to delete the directory '' @ strip path @
                  ''? This cannot be undone. Please confirm yes or no.''),
           Speak (''Deleting directory '' @ strip path @ ''.''),
           Delete_item (strip path),
           Speak (if delete_item_res en (strip path)
                  then ''Directory '' @ strip path @ '' has been deleted.''
                  else ''I couldn't delete the directory '' @ strip path @
                       ''. Please check that it exists and try again.'')]"
    by (simp add: cp_delete_directory_def truthy_def Let_def speak_def emit_def)
next
  assume "security_manager_ok en"
  then show "fst (cp_handle_clear_data en command_text b w) = Returned"
    by (simp add: cp_handle_clear_data_def clear_all_data_def Let_def)
next
  assume "security_manager_ok en"
  then show "trace (snd (cp_handle_clear_data en command_text b w)) =
          trace w @
          [Speak ''Are you sure you want to clear all your stored data? This cannot be undone. Please say yes or no.'',
           Speak ''All your stored data has been cleared, and privacy settings have been reset to defaults.'']"
    by (simp add: cp_handle_clear_data_def clear_all_data_def Let_def speak_def)
next
  assume "security_manager_ok en"
  then show "secm (snd (cp_handle_clear_data en command_text b w)) = snd (clear_all_data (secm w))"
    by (simp add: cp_handle_clear_data_def clear_all_data_def Let_def speak_def)
next
  assume "security_manager_ok en"
  then show "secure_storage (secm (snd (cp_handle_clear_data en command_text b w))) = PDict []"
    by (simp add: cp_handle_clear_data_def clear_all_data_def Let_def speak_def)
qed

lemma sel_delete_file:
  "select_rule commands ''delete file notes.txt'' =
     Some (H_delete_item, [None, Some '' file'', Some ''notes.txt''], [(''path'', Some ''notes.txt'')])"
  by code_simp

lemma sel_execute:
  "select_rule commands ''execute command rm -rf /'' =
     Some (H_execute_command, [None, Some ''rm -rf /''], [(''command'', Some ''rm -rf /'')])"
  by code_simp

lemma normal_execute: "strip (lower ''execute command rm -rf /'') = ''execute command rm -rf /''"
  by code_simp

lemma execute_command_rm_rf_refused:
  "process_command en ''execute command rm -rf /'' w =
     (if system_handler_ok en then (Returned, speak refusal w)
      else (Returned, speak not_available w))"
proof -
  have "list_ex (\<lambda>dc. contains (lower (strip ''rm -rf /'')) dc) dangerous_commands"
    by code_simp
  then show ?thesis
    unfolding process_command_def dispatch_def normal_execute sel_execute
    by (simp add: invoke_def signature_of_def bind_args_def run_handler_def
          cp_execute_command_def pick_arg_def kw_get_def truthy_def guard_def)
qed


theorem destructive_handlers_witness:
  "system_handler_ok env0 \<and> security_manager_ok env0
   \<and> pick_arg \<lparr>args = [None, Some '' file'', Some ''notes.txt''], named = None,
                kwargs = [(''path'', Some ''notes.txt'')]\<rparr> ''path'' = Some ''notes.txt''
   \<and> trace (snd (cp_delete_item env0 ''delete file notes.txt''
        \<lparr>args = [None, Some '' file'', Some ''notes.txt''], named = None,
         kwargs = [(''path'', Some ''notes.txt'')]\<rparr> world0)) =
       [Speak ''Are you sure you want to delete notes.txt? Please confirm by saying yes or no.'',
        Speak ''Deleting notes.txt.'',
        Delete_item ''notes.txt'',
        Speak ''notes.txt has been deleted.'']
   \<and> pick_arg \<lparr>args = [None, Some ''old''], named = None,
                kwargs = [(''dir_path'', Some ''old'')]\<rparr> ''dir_path'' = Some ''old''
   \<and> trace (snd (cp_delete_directory env0 ''delete the folder old''
        \<lparr>args = [None, Some ''old''], named = None,
         kwargs = [(''dir_path'', Some ''old'')]\<rparr> world0)) =
       [Speak ''Are you sure you want to delete the directory old? This cannot be undone. Please confirm yes or no.'',
        Speak ''Deleting directory old.'',
        Delete_item ''old'',
        Speak ''Directory old has been deleted.'']
   \<and> secure_storage (secm (snd (cp_handle_clear_data env0 ''clear all data''
        \<lparr>args = [], named = None, kwargs = []\<rparr> world0))) = PDict []"
proof -
  have e: "system_handler_ok env0" "security_manager_ok env0" "delete_item_res env0 = (\<lambda>p. True)"
    by (simp_all add: env0_def)
  have t: "trace world0 = []" by (simp add: world0_def)
  have p1: "pick_arg \<lparr>args = [None, Some '' file'', Some ''notes.txt''], named = None,
                kwargs = [(''path'', Some ''notes.txt'')]\<rparr> ''path'' = Some ''notes.txt''"
    by (simp add: pick_arg_def kw_get_def truthy_def)
  have p2: "pick_arg \<lparr>args = [None, Some ''old''], named = None,
                kwargs = [(''dir_path'', Some ''old'')]\<rparr> ''dir_path'' = Some ''old''"
    by (simp add: pick_arg_def kw_get_def truthy_def)
  have s1: "strip ''notes.txt'' = ''notes.txt''" by code_simp
  have s2: "strip ''old'' = ''old''" by code_simp
  note thm1 = destructive_handlers_assume_confirmation
      [where en = env0 and path = "''notes.txt''" and command_text = "''delete file notes.txt''"
         and w = world0
         and b = "\<lparr>args = [None, Some '' file'', Some ''notes.txt''], named = None,
                   kwargs = [(''path'', Some ''notes.txt'')]\<rparr>"]
  note thm2 = destructive_handlers_assume_confirmation
      [where en = env0 and path = "''old''" and command_text = "''delete the folder old''"
         and w = world0
         and b = "\<lparr>args = [None, Some ''old''], named = None,
                   kwargs = [(''dir_path'', Some ''old'')]\<rparr>"]
  note thm3 = destructive_handlers_assume_confirmation
      [where en = env0 and command_text = "''clear all data''" and w = world0
         and b = "\<lparr>args = [], named = None, kwargs = []\<rparr>"]
  have c1: "trace (snd (cp_delete_item env0 ''delete file notes.txt''
        \<lparr>args = [None, Some '' file'', Some ''notes.txt''], named = None,
         kwargs = [(''path'', Some ''notes.txt'')]\<rparr> world0)) =
       [Speak ''Are you sure you want to delete notes.txt? Please confirm by saying yes or no.'',
        Speak ''Deleting notes.txt.'',
        Delete_item ''notes.txt'',
        Speak ''notes.txt has been deleted.'']"
    using thm1 e p1 by (simp add: s1 t)
  have c2: "trace (snd (cp_delete_directory env0 ''delete the folder old''
        \<lparr>args = [None, Some ''old''], named = None,
         kwargs = [(''dir_path'', Some ''old'')]\<rparr> world0)) =
       [Speak ''Are you sure you want to delete the directory old? This cannot be undone. Please confirm yes or no.'',
        Speak ''Deleting directory old.'',
        Delete_item ''old'',
        Speak ''Directory old has been deleted.'']"
    using thm2 e p2 by (simp add: s2 t)
  have c3: "secure_storage (secm (snd (cp_handle_clear_data env0 ''clear all data''
        \<lparr>args = [], named = None, kwargs = []\<rparr> world0))) = PDict []"
    using thm3 e(2) by blast
  from e p1 p2 c1 c2 c3 show ?thesis by simp
qed

section \<open>Secure storage\<close>

lemma map_of_dict_set: "map_of (dict_set d k v) k' = (if k' = k then Some v else map_of d k')"
  by (induction d) auto

lemma dict_set_fresh: "k \<notin> set (map fst d) \<Longrightarrow> dict_set d k v = d @ [(k, v)]"
  by (induction d) auto

lemma keyset_dict_set: "set (map fst (dict_set d k v)) = insert k (set (map fst d))"
proof (induction d)
  case Nil
  show ?case by simp
next
  case (Cons a d)
  obtain k' v' where a: "a = (k', v')" by (cases a)
  show ?case using Cons.IH by (cases "k' = k") (simp_all add: a insert_commute)
qed

lemma distinct_dict_set: "distinct (map fst d) \<Longrightarrow> distinct (map fst (dict_set d k v))"
proof (induction d)
  case Nil
  then show ?case by simp
next
  case (Cons a d)
  obtain k' v' where a: "a = (k', v')" by (cases a)
  show ?case
  proof (cases "k' = k")
    case True
    with Cons.prems a show ?thesis by simp
  next
    case False
    with Cons a have "distinct (map fst (dict_set d k v))" "k' \<notin> set (map fst d)" by auto
    with False a keyset_dict_set [of d k v] show ?thesis by simp
  qed
qed

lemma foldl_dict_set_distinct:
  "distinct (map fst kvs) \<Longrightarrow> set (map fst acc) \<inter> set (map fst kvs) = {} \<Longrightarrow>
   foldl (\<lambda>d kv. dict_set d (fst kv) (snd kv)) acc kvs = acc @ kvs"
proof (induction kvs arbitrary: acc)
  case Nil
  then show ?case by simp
next
  case (Cons kv kvs)
  from Cons.prems have fresh: "fst kv \<notin> set (map fst acc)" by auto
  have step: "dict_set acc (fst kv) (snd kv) = acc @ [kv]"
    using dict_set_fresh [OF fresh] by simp
  from Cons.prems have "distinct (map fst kvs)"
    and "set (map fst (acc @ [kv])) \<inter> set (map fst kvs) = {}" by auto
  with Cons.IH have "foldl (\<lambda>d kv. dict_set d (fst kv) (snd kv)) (acc @ [kv]) kvs = (acc @ [kv]) @ kvs"
    by blast
  with step show ?case by simp
qed

lemma dict_of_items_distinct: "distinct (map fst kvs) \<Longrightarrow> dict_of_items kvs = kvs"
  using foldl_dict_set_distinct [of kvs "[]"] by (simp add: dict_of_items_def)

lemma map_of_map_prod: "map_of (map (map_prod id f) d) k = map_option f (map_of d k)"
  by (induction d) auto

lemma json_round_trip: "wf_pyval v \<Longrightarrow> json_native v \<Longrightarrow> decode (encode v) = v"
proof (induction v)
  case (PList xs)
  then have "map (decode \<circ> encode) xs = xs"
    by (intro map_idI) (auto simp: list_all_iff)
  then show ?case by simp
next
  case (PTuple xs)
  then show ?case by simp
next
  case (PDict d)
  have e: "map (map_prod id decode \<circ> map_prod id encode) d = d"
  proof (intro map_idI)
    fix kv assume m: "kv \<in> set d"
    obtain k v where kv: "kv = (k, v)" by (cases kv)
    with m PDict.prems have "wf_pyval v" "json_native v"
      by (auto simp: list_all_iff)
    with PDict.IH m kv have "decode (encode v) = v" by auto
    with kv show "(map_prod id decode \<circ> map_prod id encode) kv = kv" by simp
  qed
  from PDict.prems have "distinct (map fst d)" by simp
  then show ?case by (simp add: e dict_of_items_distinct)
qed simp_all

lemma encodable_decodable: "encodable n v \<Longrightarrow> n \<le> m \<Longrightarrow> decodable m (encode v)"
proof (induction v arbitrary: n m)
  case (PList xs)
  from PList.prems obtain n' where n: "n = Suc n'" "list_all (encodable n') xs"
    by (cases n) simp_all
  with PList.prems obtain m' where m: "m = Suc m'" "n' \<le> m'" by (cases m) simp_all
  from n m PList.IH have "list_all (\<lambda>x. decodable m' (encode x)) xs"
    by (auto simp: list_all_iff)
  with m show ?case by (simp add: list_all_iff)
next
  case (PTuple xs)
  from PTuple.prems obtain n' where n: "n = Suc n'" "list_all (encodable n') xs"
    by (cases n) simp_all
  with PTuple.prems obtain m' where m: "m = Suc m'" "n' \<le> m'" by (cases m) simp_all
  from n m PTuple.IH have "list_all (\<lambda>x. decodable m' (encode x)) xs"
    by (auto simp: list_all_iff)
  with m show ?case by (simp add: list_all_iff)
next
  case (PDict d)
  from PDict.prems obtain n' where n: "n = Suc n'" "list_all (encodable n') (map snd d)"
    by (cases n) simp_all
  with PDict.prems obtain m' where m: "m = Suc m'" "n' \<le> m'" by (cases m) simp_all
  have "decodable m' (encode v)" if "(k, v) \<in> set d" for k v
  proof -
    from that n have "encodable n' v" by (auto simp: list_all_iff)
    moreover from that have "v \<in> Basic_BNFs.snds (k, v)" by simp
    ultimately show ?thesis using PDict.IH that m by blast
  qed
  then have "list_all (\<lambda>kv. decodable m' (encode (snd kv))) d"
    by (auto simp: list_all_iff)
  with m show ?case by (simp add: list_all_iff comp_def case_prod_beta)
qed simp_all

lemma int_str_ok_digit: "\<bar>i\<bar> < 10 \<Longrightarrow> int_str_ok i"
proof -
  assume a: "\<bar>i\<bar> < 10"
  have "(10::int) ^ 1 \<le> 10 ^ max_str_digits"
    by (rule power_increasing) (simp_all add: max_str_digits_def)
  with a show ?thesis by (simp add: int_str_ok_def)
qed

lemma write_settings_keeps:
  "secure_storage_file (snd (write_settings st d)) = secure_storage_file d
   \<and> key_file (snd (write_settings st d)) = key_file d
   \<and> writable (snd (write_settings st d)) = writable d
   \<and> encrypts (snd (write_settings st d)) = encrypts d
   \<and> dump_depth (snd (write_settings st d)) = dump_depth d
   \<and> load_depth (snd (write_settings st d)) = load_depth d"
  by (simp add: write_settings_def)

lemma load_privacy_keeps:
  "secure_storage_file (snd (load_privacy_settings home d)) = secure_storage_file d
   \<and> key_file (snd (load_privacy_settings home d)) = key_file d
   \<and> writable (snd (load_privacy_settings home d)) = writable d
   \<and> encrypts (snd (load_privacy_settings home d)) = encrypts d
   \<and> dump_depth (snd (load_privacy_settings home d)) = dump_depth d
   \<and> load_depth (snd (load_privacy_settings home d)) = load_depth d"
proof (cases "privacy_file d")
  case None
  then show ?thesis
    by (simp add: load_privacy_settings_def write_defaults_def write_settings_keeps)
next
  case (Some pf)
  show ?thesis
  proof (cases pf)
    case (Settings_json st)
    let ?m = "foldl (\<lambda>s kv. if fst kv \<in> set (map fst s) then s
                                      else dict_set s (fst kv) (snd kv))
                              st (default_settings home)"
    obtain ok d' where w: "write_settings ?m d = (ok, d')" by (cases "write_settings ?m d")
    with write_settings_keeps [of ?m d] have
      "secure_storage_file d' = secure_storage_file d \<and> key_file d' = key_file d
       \<and> writable d' = writable d \<and> encrypts d' = encrypts d
       \<and> dump_depth d' = dump_depth d \<and> load_depth d' = load_depth d"
      by simp
    with Some Settings_json w show ?thesis
      by (cases ok) (simp_all add: load_privacy_settings_def Let_def)
  next
    case Not_json
    with Some show ?thesis
      by (simp add: load_privacy_settings_def write_defaults_def write_settings_keeps)
  next
    case Undecodable
    with Some show ?thesis by (simp add: load_privacy_settings_def)
  qed
qed

lemma restart_storage:
  assumes "key_file d = Some k" "secure_storage_file d = Some (Token k j)"
    and "decodable (load_depth d) j"
  shows "secure_storage (init home f1 f2 d) = decode j"
proof -
  have a: "initialize_encryption f1 f2 d = (k, d)"
    using assms by (simp add: initialize_encryption_def)
  obtain ps d2 where b: "load_privacy_settings home d = (ps, d2)" by (cases "load_privacy_settings home d")
  with load_privacy_keeps [of home d] assms
  have "secure_storage_file d2 = Some (Token k j)" "decodable (load_depth d2) j"
    by simp_all
  then have "load_secure_storage k d2 = (decode j, d2)"
    by (simp add: load_secure_storage_def json_loads_def)
  with a b show ?thesis by (simp add: init_def)
qed

lemma store_in_memory:
  "secure_storage sm = PDict d \<Longrightarrow>
   secure_storage (snd (store_secure_data k v sm)) = PDict (dict_set d k v)"
  by (simp add: store_secure_data_def Let_def split: prod.splits)

lemma save_succeeds_iff:
  "fst (save_secure_storage k data d) = True \<longleftrightarrow>
     encodable (dump_depth d) data \<and> encrypts d \<and> writable d"
  by (simp add: save_secure_storage_def json_dumps_def Let_def)

lemma save_keeps:
  "key_file (snd (save_secure_storage k data d)) = key_file d
   \<and> load_depth (snd (save_secure_storage k data d)) = load_depth d"
  by (simp add: save_secure_storage_def json_dumps_def Let_def)

lemma save_written:
  "fst (save_secure_storage k data d) = True \<Longrightarrow>
   secure_storage_file (snd (save_secure_storage k data d)) = Some (Token k (encode data))"
  by (simp add: save_secure_storage_def json_dumps_def Let_def encrypt_def split: if_splits)

lemma store_files:
  "secure_storage sm = PDict d \<Longrightarrow>
   fst (store_secure_data k v sm) =
     fst (save_secure_storage (cipher_key sm) (PDict (dict_set d k v)) (files sm))
   \<and> files (snd (store_secure_data k v sm)) =
     snd (save_secure_storage (cipher_key sm) (PDict (dict_set d k v)) (files sm))"
  by (simp add: store_secure_data_def Let_def split: prod.splits)

text \<open>
  Claim C6, amended.  When the storage is a dictionary, reading a key right after
  storing a value under it gives that value, whatever the value.  When moreover the
  write succeeded (\<open>store_secure_data\<close> returned \<open>True\<close>), the key file holds the key
  in use, the decoder of the new process gets at least as deep as the encoder did,
  and the value is of the JSON data model and equal to itself (\<open>None\<close>, booleans,
  integers, floats other than NaN, strings, lists and dictionaries of such, no tuple),
  a process started afterwards on the same files reads the same value under that key.
\<close>

theorem secure_storage_round_trip:
  "(secure_storage sm = PDict d \<longrightarrow>
      get_secure_data k dflt (snd (store_secure_data k v sm)) = Inr v)
   \<and> (secure_storage sm = PDict d \<and> distinct (map fst d) \<and> wf_pyval v \<and> json_native v
        \<and> fst (store_secure_data k v sm) = True
        \<and> key_file (files sm) = Some (cipher_key sm)
        \<and> dump_depth (files sm) \<le> load_depth (files sm) \<longrightarrow>
      get_secure_data k dflt (init home fresh1 fresh2 (files (snd (store_secure_data k v sm))))
          = Inr v)"
proof (intro conjI impI)
  assume "secure_storage sm = PDict d"
  then show "get_secure_data k dflt (snd (store_secure_data k v sm)) = Inr v"
    by (simp add: store_in_memory get_secure_data_def map_of_dict_set)
next
  assume h: "secure_storage sm = PDict d \<and> distinct (map fst d) \<and> wf_pyval v \<and> json_native v
        \<and> fst (store_secure_data k v sm) = True
        \<and> key_file (files sm) = Some (cipher_key sm)
        \<and> dump_depth (files sm) \<le> load_depth (files sm)"
  let ?d' = "dict_set d k v"
  let ?sm' = "snd (store_secure_data k v sm)"
  from h store_files [of sm d k v]
  have ok: "fst (save_secure_storage (cipher_key sm) (PDict ?d') (files sm)) = True"
    and fl: "files ?sm' = snd (save_secure_storage (cipher_key sm) (PDict ?d') (files sm))"
    by simp_all
  from ok have enc: "encodable (dump_depth (files sm)) (PDict ?d')"
    by (simp only: save_succeeds_iff)
  from h fl save_keeps [of "cipher_key sm" "PDict ?d'" "files sm"]
  have f1: "key_file (files ?sm') = Some (cipher_key sm)"
    and ld: "load_depth (files ?sm') = load_depth (files sm)"
    by simp_all
  from fl save_written [OF ok]
  have f2: "secure_storage_file (files ?sm') = Some (Token (cipher_key sm) (encode (PDict ?d')))"
    by simp
  from h have le: "dump_depth (files sm) \<le> load_depth (files sm)" by simp
  have "decodable (load_depth (files sm)) (encode (PDict ?d'))"
    using enc le by (rule encodable_decodable)
  with ld have f3: "decodable (load_depth (files ?sm')) (encode (PDict ?d'))"
    by (simp only:)
  from h have dist: "distinct (map fst ?d')" by (simp add: distinct_dict_set)
  then have dist2: "distinct (map fst (map (map_prod id decode) (map (map_prod id encode) ?d')))"
    by (simp add: comp_def)
  have "secure_storage (init home fresh1 fresh2 (files ?sm')) = decode (encode (PDict ?d'))"
    using restart_storage [OF f1 f2 f3] .
  also have "\<dots> = PDict (map (map_prod id decode) (map (map_prod id encode) ?d'))"
    using dict_of_items_distinct [OF dist2] by simp
  finally have st: "secure_storage (init home fresh1 fresh2 (files ?sm')) =
      PDict (map (map_prod id decode) (map (map_prod id encode) ?d'))" .
  from h have "decode (encode v) = v" by (simp add: json_round_trip)
  then show "get_secure_data k dflt (init home fresh1 fresh2 (files ?sm')) = Inr v"
    by (simp add: get_secure_data_def st map_prod.comp map_of_map_prod map_of_dict_set)
qed

text \<open>
  Claim C10.  \<open>log_data_access\<close> returns normally whenever the storage is a
  dictionary whose \<open>access_log\<close> is absent or a list (nothing else is ever stored
  there by the program); and after every call that returns, the \<open>access_log\<close>
  in secure storage is a list of at most 1000 entries: the old entries followed by
  the new one, cut down to the last 1000, in their order.
\<close>

theorem log_data_access_bounded:
  "(secure_storage sm = PDict d
      \<and> (map_of d ''access_log'' = None \<or> (\<exists>xs. map_of d ''access_log'' = Some (PList xs)))
      \<longrightarrow> (\<exists>sm'. log_data_access now data_type description sm = Inr sm'))
   \<and> (log_data_access now data_type description sm = Inr sm' \<longrightarrow>
        (\<exists>xs ys. get_secure_data ''access_log'' (PList []) sm = Inr (PList xs)
           \<and> get_secure_data ''access_log'' (PList []) sm' = Inr (PList ys)
           \<and> length ys \<le> 1000
           \<and> ys = drop (length (xs @ [log_entry now data_type description]) - 1000)
                       (xs @ [log_entry now data_type description])))"
proof (intro conjI impI)
  assume "secure_storage sm = PDict d
      \<and> (map_of d ''access_log'' = None \<or> (\<exists>xs. map_of d ''access_log'' = Some (PList xs)))"
  then show "\<exists>sm'. log_data_access now data_type description sm = Inr sm'"
    by (auto simp: log_data_access_def get_secure_data_def Let_def)
next
  assume r: "log_data_access now data_type description sm = Inr sm'"
  then obtain xs where g: "get_secure_data ''access_log'' (PList []) sm = Inr (PList xs)"
    by (auto simp: log_data_access_def split: sum.splits pyval.splits)
  then obtain d where d: "secure_storage sm = PDict d"
    by (auto simp: get_secure_data_def split: pyval.splits)
  let ?zs = "xs @ [log_entry now data_type description]"
  let ?ys = "drop (length ?zs - 1000) ?zs"
  from r g have sm': "sm' = snd (store_secure_data ''access_log'' (PList ?ys) sm)"
    by (auto simp: log_data_access_def Let_def split: if_splits)
  with d have "get_secure_data ''access_log'' (PList []) sm' = Inr (PList ?ys)"
    by (simp add: store_in_memory get_secure_data_def map_of_dict_set)
  moreover have "length ?ys \<le> 1000" by simp
  ultimately show "\<exists>xs ys. get_secure_data ''access_log'' (PList []) sm = Inr (PList xs)
           \<and> get_secure_data ''access_log'' (PList []) sm' = Inr (PList ys)
           \<and> length ys \<le> 1000
           \<and> ys = drop (length (xs @ [log_entry now data_type description]) - 1000)
                       (xs @ [log_entry now data_type description])"
    using g by blast
qed


lemma secmgr0_facts:
  "secure_storage secmgr0 = PDict []" "cipher_key secmgr0 = 11"
  "key_file (files secmgr0) = Some 11" "writable (files secmgr0)"
  "encrypts (files secmgr0)" "dump_depth (files secmgr0) = 900"
  "load_depth (files secmgr0) = 900"
proof -
  let ?d1 = "disk0\<lparr>key_file := Some 11\<rparr>"
  have a: "initialize_encryption 11 12 disk0 = (11, ?d1)"
    by (simp add: initialize_encryption_def disk0_def)
  obtain ps d2 where b: "load_privacy_settings home0 ?d1 = (ps, d2)"
    by (cases "load_privacy_settings home0 ?d1")
  with load_privacy_keeps [of home0 ?d1]
  have k: "secure_storage_file d2 = None" "key_file d2 = Some 11" "writable d2" "encrypts d2"
    "dump_depth d2 = 900" "load_depth d2 = 900"
    by (simp_all add: disk0_def)
  then have c: "load_secure_storage 11 d2 =
      (PDict [], d2\<lparr>secure_storage_file := Some (Token 11 (JObj []))\<rparr>)"
    by (simp add: load_secure_storage_def new_storage_def save_secure_storage_def
        json_dumps_def encrypt_def)
  from a b c have e: "secmgr0 = \<lparr>user_home = home0, cipher_key = 11, privacy_settings = ps,
      secure_storage = PDict [], files = d2\<lparr>secure_storage_file := Some (Token 11 (JObj []))\<rparr>\<rparr>"
    by (simp add: secmgr0_def init_def)
  show "secure_storage secmgr0 = PDict []" "cipher_key secmgr0 = 11"
    "key_file (files secmgr0) = Some 11" "writable (files secmgr0)"
    "encrypts (files secmgr0)" "dump_depth (files secmgr0) = 900"
    "load_depth (files secmgr0) = 900"
    by (simp_all add: e k)
qed

lemma store_on_secmgr0:
  assumes "encodable 900 (PDict [(k, v)])"
  shows "fst (store_secure_data k v secmgr0) = True"
    and "key_file (files (snd (store_secure_data k v secmgr0))) = Some 11"
    and "secure_storage_file (files (snd (store_secure_data k v secmgr0))) =
           Some (Token 11 (encode (PDict [(k, v)])))"
    and "load_depth (files (snd (store_secure_data k v secmgr0))) = 900"
proof -
  note s = store_files [of secmgr0 "[]" k v, OF secmgr0_facts(1)]
  have ok: "fst (save_secure_storage 11 (PDict [(k, v)]) (files secmgr0)) = True"
    using assms by (simp only: save_succeeds_iff secmgr0_facts)
  with s show "fst (store_secure_data k v secmgr0) = True"
    by (simp add: secmgr0_facts)
  from s save_keeps [of 11 "PDict [(k, v)]" "files secmgr0"]
  show "key_file (files (snd (store_secure_data k v secmgr0))) = Some 11"
    and "load_depth (files (snd (store_secure_data k v secmgr0))) = 900"
    by (simp_all add: secmgr0_facts)
  from s save_written [OF ok]
  show "secure_storage_file (files (snd (store_secure_data k v secmgr0))) =
           Some (Token 11 (encode (PDict [(k, v)])))"
    by (simp add: secmgr0_facts)
qed

text \<open>
  Claim C6, as stated, fails after a restart for a value that \<open>json.dumps\<close>
  accepts but JSON cannot tell from another: a tuple is written as an array and read
  back as a list, which is not equal to the tuple.
\<close>

theorem tuple_comes_back_as_list:
  "fst (store_secure_data ''k'' (PTuple [PInt 1, PInt 2]) secmgr0) = True
   \<and> get_secure_data ''k'' PNone (snd (store_secure_data ''k'' (PTuple [PInt 1, PInt 2]) secmgr0))
       = Inr (PTuple [PInt 1, PInt 2])
   \<and> get_secure_data ''k'' PNone
        (init home0 21 22 (files (snd (store_secure_data ''k'' (PTuple [PInt 1, PInt 2]) secmgr0))))
       = Inr (PList [PInt 1, PInt 2])
   \<and> get_secure_data ''k'' PNone
        (init home0 21 22 (files (snd (store_secure_data ''k'' (PTuple [PInt 1, PInt 2]) secmgr0))))
       \<noteq> Inr (PTuple [PInt 1, PInt 2])"
proof -
  let ?v = "PTuple [PInt 1, PInt 2]"
  let ?sm' = "snd (store_secure_data ''k'' ?v secmgr0)"
  have enc: "encodable 900 (PDict [(''k'', ?v)])"
    by (simp add: int_str_ok_digit)
  note f = store_on_secmgr0 [OF enc]
  have dec: "decodable (load_depth (files ?sm')) (encode (PDict [(''k'', ?v)]))"
    by (simp add: f(4) int_str_ok_digit)
  have "secure_storage (init home0 21 22 (files ?sm')) = decode (encode (PDict [(''k'', ?v)]))"
    using restart_storage [OF f(2) f(3) dec] .
  then have r: "secure_storage (init home0 21 22 (files ?sm')) =
          PDict [(''k'', PList [PInt 1, PInt 2])]"
    by (simp add: dict_of_items_def)
  have b: "get_secure_data ''k'' PNone ?sm' = Inr ?v"
    by (simp add: store_in_memory [OF secmgr0_facts(1)] get_secure_data_def)
  have c: "get_secure_data ''k'' PNone (init home0 21 22 (files ?sm')) = Inr (PList [PInt 1, PInt 2])"
    by (simp add: get_secure_data_def r)
  from f(1) b c show ?thesis by simp
qed

theorem secure_storage_round_trip_witness:
  "secure_storage secmgr0 = PDict [] \<and> distinct (map fst ([] :: (string \<times> pyval) list))
   \<and> wf_pyval (PList [PInt 1, PFloat (Finite (1 / 2)), PStr ''a''])
   \<and> json_native (PList [PInt 1, PFloat (Finite (1 / 2)), PStr ''a''])
   \<and> fst (store_secure_data ''token'' (PList [PInt 1, PFloat (Finite (1 / 2)), PStr ''a'']) secmgr0)
       = True
   \<and> key_file (files secmgr0) = Some (cipher_key secmgr0)
   \<and> dump_depth (files secmgr0) \<le> load_depth (files secmgr0)
   \<and> get_secure_data ''token'' PNone
        (snd (store_secure_data ''token'' (PList [PInt 1, PFloat (Finite (1 / 2)), PStr ''a'']) secmgr0))
       = Inr (PList [PInt 1, PFloat (Finite (1 / 2)), PStr ''a''])
   \<and> get_secure_data ''token'' PNone
        (init home0 21 22
           (files (snd (store_secure_data ''token''
                          (PList [PInt 1, PFloat (Finite (1 / 2)), PStr ''a'']) secmgr0))))
       = Inr (PList [PInt 1, PFloat (Finite (1 / 2)), PStr ''a''])"
proof -
  let ?v = "PList [PInt 1, PFloat (Finite (1 / 2)), PStr ''a'']"
  have enc: "encodable 900 (PDict [(''token'', ?v)])"
    by (simp add: int_str_ok_digit)
  have h: "secure_storage secmgr0 = PDict []" "distinct (map fst ([] :: (string \<times> pyval) list))"
    "wf_pyval ?v" "json_native ?v"
    "fst (store_secure_data ''token'' ?v secmgr0) = True"
    "key_file (files secmgr0) = Some (cipher_key secmgr0)"
    "dump_depth (files secmgr0) \<le> load_depth (files secmgr0)"
    using store_on_secmgr0(1) [OF enc] by (simp_all add: secmgr0_facts)
  from secure_storage_round_trip
         [where sm = secmgr0 and d = "[]" and k = "''token''" and v = ?v
            and dflt = PNone and home = home0 and ?fresh1.0 = 21 and ?fresh2.0 = 22] h
  show ?thesis by blast
qed

theorem log_data_access_bounded_witness:
  "secure_storage
     \<lparr>user_home = home0, cipher_key = 11, privacy_settings = [],
      secure_storage = PDict [(''access_log'', PList (replicate 1000 (log_entry ''t'' ''a'' ''b'')))],
      files = disk0\<rparr>
     = PDict [(''access_log'', PList (replicate 1000 (log_entry ''t'' ''a'' ''b'')))]
   \<and> map_of [(''access_log'', PList (replicate 1000 (log_entry ''t'' ''a'' ''b'')))] ''access_log''
       = Some (PList (replicate 1000 (log_entry ''t'' ''a'' ''b'')))
   \<and> (\<exists>sm'. log_data_access ''2026-01-01T09:00:00'' ''files'' ''listed''
          \<lparr>user_home = home0, cipher_key = 11, privacy_settings = [],
           secure_storage = PDict [(''access_log'', PList (replicate 1000 (log_entry ''t'' ''a'' ''b'')))],
           files = disk0\<rparr> = Inr sm'
        \<and> get_secure_data ''access_log'' (PList []) sm' =
            Inr (PList (replicate 999 (log_entry ''t'' ''a'' ''b'') @
                        [log_entry ''2026-01-01T09:00:00'' ''files'' ''listed''])))"
proof -
  let ?old = "replicate 1000 (log_entry ''t'' ''a'' ''b'')"
  let ?d = "[(''access_log'', PList ?old)]"
  let ?sm = "\<lparr>user_home = home0, cipher_key = 11, privacy_settings = [],
              secure_storage = PDict ?d, files = disk0\<rparr>"
  let ?e = "log_entry ''2026-01-01T09:00:00'' ''files'' ''listed''"
  have h1: "secure_storage ?sm = PDict ?d" by simp
  have h2: "map_of ?d ''access_log'' = Some (PList ?old)" by simp
  have g: "get_secure_data ''access_log'' (PList []) ?sm = Inr (PList ?old)"
    by (simp add: get_secure_data_def)
  note t = log_data_access_bounded
      [where sm = ?sm and d = ?d and now = "''2026-01-01T09:00:00''" and data_type = "''files''"
         and description = "''listed''"]
  from t h1 h2 obtain sm' where
    r: "log_data_access ''2026-01-01T09:00:00'' ''files'' ''listed'' ?sm = Inr sm'"
    by blast
  with t [where sm' = sm'] obtain xs ys where
    x: "get_secure_data ''access_log'' (PList []) ?sm = Inr (PList xs)"
    and y: "get_secure_data ''access_log'' (PList []) sm' = Inr (PList ys)"
    and d: "ys = drop (length (xs @ [?e]) - 1000) (xs @ [?e])"
    by blast
  from x g have "xs = ?old" by simp
  with d have "ys = replicate 999 (log_entry ''t'' ''a'' ''b'') @ [?e]" by simp
  with r y h1 h2 show ?thesis by blast
qed

section \<open>Path resolution\<close>

lemma absolute_iff: "is_absolute (Path s) \<longleftrightarrow> take 1 s = ''/''"
  by (simp add: is_absolute_def Path_def splitroot_def)

lemma root_of_Path: "root (Path s) = [] \<or> root (Path s) = ''/'' \<or> root (Path s) = ''//''"
  by (simp add: Path_def splitroot_def)

lemma path_str_absolute:
  assumes "is_absolute (Path h)"
  shows "take 1 (path_str (Path h) @ rest) = ''/''"
proof -
  from assms root_of_Path [of h] have "root (Path h) = ''/'' \<or> root (Path h) = ''//''"
    by (auto simp: is_absolute_def)
  then show ?thesis by (auto simp: path_str_def)
qed

lemma replace_first_head:
  "startswith s ''~'' \<Longrightarrow> replace_first CHR ''~'' new s = new @ drop 1 s"
  by (cases s) (auto simp: startswith_def)

lemma lstrip_seps_relative: "\<not> is_absolute (Path (lstrip_seps x))"
proof (cases "lstrip_seps x")
  case Nil
  then show ?thesis by (simp add: absolute_iff)
next
  case (Cons a as)
  then have "lstrip_seps x \<noteq> []" by simp
  then have "\<not> (hd (lstrip_seps x) = CHR ''/'' \<or> hd (lstrip_seps x) = CHR 0x5C)"
    unfolding lstrip_seps_def by (rule hd_dropWhile)
  with Cons show ?thesis by (simp add: absolute_iff)
qed

lemma folder_paths:
  "Path ''Desktop'' = Mk_path [] [''Desktop'']"
  "Path ''Documents'' = Mk_path [] [''Documents'']"
  "Path ''Downloads'' = Mk_path [] [''Downloads'']"
  by (simp_all add: Path_def splitroot_def)

lemma under_folder:
  "joinpath (joinpath home (Mk_path [] [folder])) (Path (lstrip_seps x)) =
     Mk_path (root home) (parts home @ [folder] @ parts (Path (lstrip_seps x)))"
  using lstrip_seps_relative [of x] by (simp add: joinpath_def is_absolute_def)

lemma take_shorter: "take n xs = ys \<Longrightarrow> m \<le> n \<Longrightarrow> take m xs = take m ys"
  by (metis min.absorb1 take_take)

lemma lower_head: "take 1 (lower s) = [c] \<Longrightarrow> lower_char CHR ''~'' \<noteq> c \<Longrightarrow> \<not> startswith s ''~''"
  by (cases s) (auto simp: startswith_def lower_def)

lemma tilde_lower: "lower_char CHR ''~'' = CHR ''~''" "lower_char CHR ''/'' = CHR ''/''"
  by (simp_all add: lower_char_code)

lemma prefix_excludes_tilde:
  assumes "startswith (lower s) (c # w)" "c \<noteq> CHR ''~''"
  shows "\<not> startswith s ''~''"
proof -
  from assms(1) have "take (length (c # w)) (lower s) = c # w" by (simp add: startswith_def)
  then have "take 1 (lower s) = take 1 (c # w)" by (rule take_shorter) simp
  then have "take 1 (lower s) = [c]" by simp
  with assms(2) show ?thesis using lower_head tilde_lower by metis
qed

lemma prefixes_differ:
  assumes "startswith t u" "startswith t v" "n \<le> length u" "n \<le> length v"
  shows "take n u = take n v"
proof -
  from assms have "take n t = take n u" "take n t = take n v"
    by (auto simp: startswith_def dest: take_shorter)
  then show ?thesis by simp
qed

lemma not_desktop_documents:
  "startswith t ''documents'' \<Longrightarrow> \<not> startswith t ''desktop''"
  "startswith t ''downloads'' \<Longrightarrow> \<not> startswith t ''desktop''"
  "startswith t ''downloads'' \<Longrightarrow> \<not> startswith t ''documents''"
  using prefixes_differ [of t "''documents''" "''desktop''" 2]
        prefixes_differ [of t "''downloads''" "''desktop''" 2]
        prefixes_differ [of t "''downloads''" "''documents''" 3]
  by auto

lemma absolute_not_special:
  assumes "is_absolute (Path s)"
  shows "\<not> startswith s ''~''" "\<not> startswith (lower s) ''desktop''"
        "\<not> startswith (lower s) ''documents''" "\<not> startswith (lower s) ''downloads''"
proof -
  from assms obtain rest where s: "s = CHR ''/'' # rest"
    by (cases s) (auto simp: absolute_iff)
  then show "\<not> startswith s ''~''" "\<not> startswith (lower s) ''desktop''"
        "\<not> startswith (lower s) ''documents''" "\<not> startswith (lower s) ''downloads''"
    by (simp_all add: startswith_def lower_def tilde_lower)
qed

text \<open>
  With POSIX paths, and the home and working directories absolute, \<open>_resolve_path\<close>
  returns an absolute path for every input: a leading \<open>~\<close> is replaced by the home
  directory, an input whose lower-cased form starts with \<open>desktop\<close>, \<open>documents\<close>
  or \<open>downloads\<close> lies under that folder of the home directory, an absolute input
  is returned as it is, and every other input lies under the working directory.
\<close>

lemma resolve_path_posix_absolute:
  assumes h: "is_absolute (Path h)" and c: "is_absolute (Path c)"
  shows "is_absolute (resolve_path posix (Path h) (Path c) s)
    \<and> (startswith s ''~'' \<longrightarrow>
          resolve_path posix (Path h) (Path c) s = Path (path_str (Path h) @ drop 1 s))
    \<and> (startswith (lower s) ''desktop'' \<longrightarrow>
          resolve_path posix (Path h) (Path c) s =
            Mk_path (root (Path h))
              (parts (Path h) @ [''Desktop''] @ parts (Path (lstrip_seps (drop 8 s)))))
    \<and> (startswith (lower s) ''documents'' \<longrightarrow>
          resolve_path posix (Path h) (Path c) s =
            Mk_path (root (Path h))
              (parts (Path h) @ [''Documents''] @ parts (Path (lstrip_seps (drop 10 s)))))
    \<and> (startswith (lower s) ''downloads'' \<longrightarrow>
          resolve_path posix (Path h) (Path c) s =
            Mk_path (root (Path h))
              (parts (Path h) @ [''Downloads''] @ parts (Path (lstrip_seps (drop 10 s)))))
    \<and> (is_absolute (Path s) \<longrightarrow> resolve_path posix (Path h) (Path c) s = Path s)
    \<and> (\<not> startswith s ''~'' \<and> \<not> startswith (lower s) ''desktop''
        \<and> \<not> startswith (lower s) ''documents'' \<and> \<not> startswith (lower s) ''downloads''
        \<and> \<not> is_absolute (Path s) \<longrightarrow>
          resolve_path posix (Path h) (Path c) s =
            Mk_path (root (Path c)) (parts (Path c) @ parts (Path s)))"
proof -
  have tilde: "resolve_path posix (Path h) (Path c) s = Path (path_str (Path h) @ drop 1 s)"
    if "startswith s ''~''"
    using that by (simp add: resolve_path_def posix_def replace_first_head)
  have desktop: "resolve_path posix (Path h) (Path c) s =
      Mk_path (root (Path h)) (parts (Path h) @ [''Desktop''] @ parts (Path (lstrip_seps (drop 8 s))))"
    if "startswith (lower s) ''desktop''"
    using that prefix_excludes_tilde [OF that]
    by (simp add: resolve_path_def posix_def folder_paths under_folder)
  have documents: "resolve_path posix (Path h) (Path c) s =
      Mk_path (root (Path h)) (parts (Path h) @ [''Documents''] @ parts (Path (lstrip_seps (drop 10 s))))"
    if "startswith (lower s) ''documents''"
    using that prefix_excludes_tilde [OF that] not_desktop_documents(1) [OF that]
    by (simp add: resolve_path_def posix_def folder_paths under_folder)
  have downloads: "resolve_path posix (Path h) (Path c) s =
      Mk_path (root (Path h)) (parts (Path h) @ [''Downloads''] @ parts (Path (lstrip_seps (drop 10 s))))"
    if "startswith (lower s) ''downloads''"
    using that prefix_excludes_tilde [OF that] not_desktop_documents(2,3) [OF that]
    by (simp add: resolve_path_def posix_def folder_paths under_folder)
  have absolute: "resolve_path posix (Path h) (Path c) s = Path s" if "is_absolute (Path s)"
    using that absolute_not_special [OF that] by (simp add: resolve_path_def posix_def)
  have relative: "resolve_path posix (Path h) (Path c) s =
      Mk_path (root (Path c)) (parts (Path c) @ parts (Path s))"
    if "\<not> startswith s ''~'' \<and> \<not> startswith (lower s) ''desktop''
        \<and> \<not> startswith (lower s) ''documents'' \<and> \<not> startswith (lower s) ''downloads''
        \<and> \<not> is_absolute (Path s)"
    using that by (simp add: resolve_path_def posix_def joinpath_def)
  have abs: "is_absolute (resolve_path posix (Path h) (Path c) s)"
  proof -
    consider (t) "startswith s ''~''"
      | (d1) "startswith (lower s) ''desktop''"
      | (d2) "startswith (lower s) ''documents''"
      | (d3) "startswith (lower s) ''downloads''"
      | (a) "is_absolute (Path s)"
      | (r) "\<not> startswith s ''~'' \<and> \<not> startswith (lower s) ''desktop''
        \<and> \<not> startswith (lower s) ''documents'' \<and> \<not> startswith (lower s) ''downloads''
        \<and> \<not> is_absolute (Path s)"
      by blast
    then show ?thesis
    proof cases
      case t
      with tilde path_str_absolute [OF h] show ?thesis by (simp add: absolute_iff)
    next
      case d1
      with desktop h show ?thesis by (simp add: is_absolute_def)
    next
      case d2
      with documents h show ?thesis by (simp add: is_absolute_def)
    next
      case d3
      with downloads h show ?thesis by (simp add: is_absolute_def)
    next
      case a
      with absolute show ?thesis by simp
    next
      case r
      with relative c show ?thesis by (simp add: is_absolute_def)
    qed
  qed
  from abs tilde desktop documents downloads absolute relative show ?thesis by blast
qed

lemma resolve_path_posix_example:
  "is_absolute (Path ''/home/user'') \<and> is_absolute (Path ''/tmp/work'')
   \<and> startswith (lower ''Desktop/notes.txt'') ''desktop''
   \<and> is_absolute (resolve_path posix (Path ''/home/user'') (Path ''/tmp/work'') ''Desktop/notes.txt'')
   \<and> resolve_path posix (Path ''/home/user'') (Path ''/tmp/work'') ''Desktop/notes.txt'' =
       Mk_path ''/'' [''home'', ''user'', ''Desktop'', ''notes.txt'']"
proof -
  have a: "is_absolute (Path ''/home/user'')" "is_absolute (Path ''/tmp/work'')"
    by (simp_all add: absolute_iff)
  have b: "startswith (lower ''Desktop/notes.txt'') ''desktop''" by code_simp
  have p: "Path ''/home/user'' = Mk_path ''/'' [''home'', ''user'']" by code_simp
  have q: "Path (lstrip_seps ''notes.txt'') = Mk_path [] [''notes.txt'']"
    by code_simp
  from resolve_path_posix_absolute [OF a, of "''Desktop/notes.txt''"] b
  have "is_absolute (resolve_path posix (Path ''/home/user'') (Path ''/tmp/work'') ''Desktop/notes.txt'')"
    and "resolve_path posix (Path ''/home/user'') (Path ''/tmp/work'') ''Desktop/notes.txt'' =
            Mk_path (root (Path ''/home/user''))
              (parts (Path ''/home/user'') @ [''Desktop''] @
               parts (Path (lstrip_seps (drop 8 ''Desktop/notes.txt''))))"
    by blast+
  with a b show ?thesis by (simp add: p q)
qed


text \<open>
  Claim C9.  With Windows paths the method does not always return an absolute path,
  as its docstring promises: the drive-relative input \<open>d:bar\<close> has a drive and no
  root, so it is not absolute, and joining it to a working directory on another drive
  gives \<open>d:bar\<close> back.
\<close>

theorem resolve_path_drive_relative_windows:
  "win_is_absolute (WindowsPath ''C:/Users/me'') \<and> win_is_absolute (WindowsPath ''C:/work'')
   \<and> resolve_path windows (WindowsPath ''C:/Users/me'') (WindowsPath ''C:/work'') ''d:bar''
       = Mk_wpath ''d:'' [] [''bar'']
   \<and> \<not> win_is_absolute
         (resolve_path windows (WindowsPath ''C:/Users/me'') (WindowsPath ''C:/work'') ''d:bar'')"
  by code_simp

lemma windows_examples:
  "WindowsPath ''C:/Users/me'' = Mk_wpath ''C:'' [bslash] [''Users'', ''me'']"
  "WindowsPath ''d:bar'' = Mk_wpath ''d:'' [] [''bar'']"
  "WindowsPath ''//server/share/x'' = Mk_wpath [bslash, bslash, CHR ''s'', CHR ''e'', CHR ''r'', CHR ''v'', CHR ''e'', CHR ''r'', bslash, CHR ''s'', CHR ''h'', CHR ''a'', CHR ''r'', CHR ''e''] [bslash] [''x'']"
  "resolve_path windows (WindowsPath ''C:/Users/me'') (WindowsPath ''C:/work'') ''notes.txt''
     = Mk_wpath ''C:'' [bslash] [''work'', ''notes.txt'']"
  "resolve_path windows (WindowsPath ''C:/Users/me'') (WindowsPath ''C:/work'') ''desktop/c:/x''
     = Mk_wpath ''c:'' [bslash] [''x'']"
  by code_simp+

section \<open>The privacy-setting handler by itself\<close>

lemma strip_network: "lower (strip ''network'') = ''network''"
  by code_simp

text \<open>
  What the body of \<open>_handle_enable_privacy_setting\<close> does once it runs, that is when
  the setting name reaches it by keyword alone: for \<open>network\<close> it sets
  \<open>allow_network_access\<close> to \<open>True\<close> in the privacy store, and for a name outside
  the table it leaves the store as it is and lists the settings it knows.  The
  dispatcher never calls it that way (claim C5 above).
\<close>

lemma update_privacy_settings_done:
  assumes "fst (update_privacy_settings [(k, v)] sm) = True" "k \<in> set valid_keys"
  shows "privacy_settings (snd (update_privacy_settings [(k, v)] sm)) =
           dict_set (privacy_settings sm) k v"
proof -
  obtain ok d' where ws: "write_settings (dict_set (privacy_settings sm) k v) (files sm) = (ok, d')"
    by (cases "write_settings (dict_set (privacy_settings sm) k v) (files sm)")
  with assms show ?thesis
    by (cases ok) (simp_all add: update_privacy_settings_def Let_def)
qed

lemma enable_privacy_setting_body:
  assumes "security_manager_ok en"
    and "fst (update_privacy_settings [(''allow_network_access'', PBool True)] (secm w)) = True"
  shows "cp_handle_enable_privacy_setting en command_text
           \<lparr>args = [], named = Some ''network'', kwargs = []\<rparr> w =
         (Returned,
          speak ''I've enabled network data collection.''
            (w\<lparr>secm := snd (update_privacy_settings [(''allow_network_access'', PBool True)] (secm w))\<rparr>))"
    and "map_of (privacy_settings (secm (snd (cp_handle_enable_privacy_setting en command_text
           \<lparr>args = [], named = Some ''network'', kwargs = []\<rparr> w)))) ''allow_network_access''
         = Some (PBool True)"
proof -
  show a: "cp_handle_enable_privacy_setting en command_text
           \<lparr>args = [], named = Some ''network'', kwargs = []\<rparr> w =
         (Returned,
          speak ''I've enabled network data collection.''
            (w\<lparr>secm := snd (update_privacy_settings [(''allow_network_access'', PBool True)] (secm w))\<rparr>))"
    using assms(1)
    by (simp add: cp_handle_enable_privacy_setting_def cp_privacy_setting_def truthy_def
        strip_network setting_map_def Let_def)
  have "''allow_network_access'' \<in> set valid_keys" by (simp add: valid_keys_def)
  with assms(2) have "privacy_settings (snd (update_privacy_settings
        [(''allow_network_access'', PBool True)] (secm w))) =
      dict_set (privacy_settings (secm w)) ''allow_network_access'' (PBool True)"
    by (rule update_privacy_settings_done)
  then show "map_of (privacy_settings (secm (snd (cp_handle_enable_privacy_setting en command_text
           \<lparr>args = [], named = Some ''network'', kwargs = []\<rparr> w)))) ''allow_network_access''
         = Some (PBool True)"
    by (simp add: a speak_def map_of_dict_set)
qed

lemma unknown_privacy_setting_body:
  assumes "security_manager_ok en" "setting \<noteq> []"
    and "map_of setting_map (lower (strip setting)) = None"
  shows "cp_handle_enable_privacy_setting en command_text
           \<lparr>args = [], named = Some setting, kwargs = []\<rparr> w =
         (Returned, speak (unfamiliar (lower (strip setting))) w)"
  using assms
  by (simp add: cp_handle_enable_privacy_setting_def cp_privacy_setting_def truthy_def Let_def)

end
